theory Spec2Isabelle
  imports Main
begin

section \<open>JavaScript values\<close>

text \<open>
  The values that flow through \<^verbatim>\<open>src/index.ts\<close>: lock ids and record attributes
  are strings or numbers, and a missing property reads as \<^verbatim>\<open>undefined\<close>. A string is
  the list of the bytes of its UTF-8 encoding. \<open>JNumber n\<close> is the integer-valued number
  nearest to \<open>n\<close>. Any other value (a boolean, \<^verbatim>\<open>null\<close>, a number with a fraction, a
  list, an object, a function) is \<open>JOther\<close>, given by the two things the program can
  observe of it: whether it is truthy, and the text it converts to.
\<close>

datatype jsval = JString string | JNumber int | JUndefined | JOther bool string

text \<open>An object used as a dictionary: its own properties.\<close>

type_synonym obj = "string \<rightharpoonup> jsval"

text \<open>
  Reading an own property; on a plain object this is the whole of a property read for
  every name that \<^verbatim>\<open>Object.prototype\<close> does not define, as for the attribute names the
  program reads from an item by name.
\<close>

definition getProp :: "obj \<Rightarrow> string \<Rightarrow> jsval" where
  "getProp m k = (case m k of None \<Rightarrow> JUndefined | Some v \<Rightarrow> v)"

text \<open>
  Reading \<^verbatim>\<open>o[k]\<close> for a computed name on a plain object: an own property first, then
  the prototype, whose members are functions, and the prototype object itself under
  \<^verbatim>\<open>__proto__\<close>.
\<close>

definition objectPrototype :: "string list" where
  "objectPrototype =
     [''constructor'', ''__defineGetter__'', ''__defineSetter__'', ''hasOwnProperty'',
      ''__lookupGetter__'', ''__lookupSetter__'', ''isPrototypeOf'', ''propertyIsEnumerable'',
      ''toString'', ''valueOf'', ''__proto__'', ''toLocaleString'']"

definition builtinText :: "string \<Rightarrow> string" where
  "builtinText k =
     (if k = ''__proto__'' then ''[object Object]''
      else ''function '' @ (if k = ''constructor'' then ''Object'' else k) @ ''() { [native code] }'')"

definition computedProp :: "obj \<Rightarrow> string \<Rightarrow> jsval" where
  "computedProp m k =
     (case m k of
        Some v \<Rightarrow> v
      | None \<Rightarrow> if k \<in> set objectPrototype then JOther True (builtinText k) else JUndefined)"

text \<open>Truthiness, as \<^verbatim>\<open>if (v)\<close> and \<^verbatim>\<open>v || d\<close> test it.\<close>

fun truthy :: "jsval \<Rightarrow> bool" where
  "truthy (JString s) = (s \<noteq> [])"
| "truthy (JNumber n) = (n \<noteq> 0)"
| "truthy JUndefined = False"
| "truthy (JOther t s) = t"

text \<open>An optional string (\<^verbatim>\<open>sortKey?: string\<close>): \<^verbatim>\<open>undefined\<close> and \<^verbatim>\<open>""\<close> are falsy.\<close>

definition truthy_str :: "string option \<Rightarrow> bool" where
  "truthy_str k = (case k of None \<Rightarrow> False | Some s \<Rightarrow> s \<noteq> [])"

text \<open>
  A property name computed from an optional string: \<^verbatim>\<open>o[undefined]\<close> is the property
  named \<^verbatim>\<open>"undefined"\<close>.
\<close>

definition key_of :: "string option \<Rightarrow> string" where
  "key_of k = (case k of None \<Rightarrow> ''undefined'' | Some s \<Rightarrow> s)"

subsection \<open>Numbers\<close>

text \<open>
  The numbers the program computes with are integer-valued doubles, \<^verbatim>\<open>NaN\<close> and the
  two infinities. \<open>Num i\<close> stands for a double only when \<open>i\<close> is one; every operation
  below rounds its exact result to the nearest double, ties to the even significand, and
  to an infinity from \<open>2^1024\<close> on.
\<close>

datatype jsnum = NaN | Infinity | NegInfinity | Num int

fun bitlen :: "nat \<Rightarrow> nat" where
  "bitlen n = (if n = 0 then 0 else Suc (bitlen (n div 2)))"

declare bitlen.simps [simp del]

definition roundNat :: "nat \<Rightarrow> nat" where
  "roundNat n =
     (if n \<le> 9007199254740992 then n
      else
        let e = bitlen n - 53;
            q = n div 2 ^ e;
            r = n mod 2 ^ e;
            h = 2 ^ (e - 1)
        in (if h < r \<or> (r = h \<and> odd q) then q + 1 else q) * 2 ^ e)"

definition toNumber :: "int \<Rightarrow> jsnum" where
  "toNumber i =
     (if \<bar>i\<bar> \<le> 9007199254740992 then Num i
      else
        let m = roundNat (nat \<bar>i\<bar>)
        in if 2 ^ 1024 \<le> m then (if i < 0 then NegInfinity else Infinity)
           else Num (if i < 0 then - int m else int m))"

fun jsSub :: "jsnum \<Rightarrow> jsnum \<Rightarrow> jsnum" where
  "jsSub NaN y = NaN"
| "jsSub x NaN = NaN"
| "jsSub Infinity Infinity = NaN"
| "jsSub NegInfinity NegInfinity = NaN"
| "jsSub Infinity y = Infinity"
| "jsSub NegInfinity y = NegInfinity"
| "jsSub (Num a) Infinity = NegInfinity"
| "jsSub (Num a) NegInfinity = Infinity"
| "jsSub (Num a) (Num b) = toNumber (a - b)"

text \<open>The product with an integer constant.\<close>

fun jsTimes :: "jsnum \<Rightarrow> int \<Rightarrow> jsnum" where
  "jsTimes NaN k = NaN"
| "jsTimes Infinity k = (if 0 < k then Infinity else if k < 0 then NegInfinity else NaN)"
| "jsTimes NegInfinity k = (if 0 < k then NegInfinity else if k < 0 then Infinity else NaN)"
| "jsTimes (Num a) k = toNumber (a * k)"

text \<open>\<^verbatim>\<open>Math.max(0, x)\<close>\<close>

fun jsMax0 :: "jsnum \<Rightarrow> jsnum" where
  "jsMax0 NaN = NaN"
| "jsMax0 Infinity = Infinity"
| "jsMax0 NegInfinity = Num 0"
| "jsMax0 (Num a) = Num (max 0 a)"

text \<open>\<^verbatim>\<open>x || d\<close> on numbers: \<^verbatim>\<open>NaN\<close> and zero are falsy.\<close>

fun jsOr :: "jsnum \<Rightarrow> jsnum \<Rightarrow> jsnum" where
  "jsOr NaN d = d"
| "jsOr (Num a) d = (if a = 0 then d else Num a)"
| "jsOr x d = x"

subsection \<open>Number to string\<close>

fun string_of_nat :: "nat \<Rightarrow> string" where
  "string_of_nat n =
     (if n < 10 then [''0123456789'' ! n]
      else string_of_nat (n div 10) @ [''0123456789'' ! (n mod 10)])"

declare string_of_nat.simps [simp del]

text \<open>
  The decimal with the fewest significant digits that still rounds to \<open>v\<close>: the multiples
  of the power of ten \<open>p\<close> on either side of \<open>v\<close> are tried, for \<open>p\<close> from the leading digit
  of \<open>v\<close> down; of two that round to \<open>v\<close> the nearer one is taken, and of two equally near
  the one with the even last digit.
\<close>

function shortest :: "nat \<Rightarrow> nat \<Rightarrow> nat" where
  "shortest v p =
     (let lo = (v div p) * p;
          hi = lo + p
      in if roundNat lo = v \<and> roundNat hi = v
         then (if v - lo < hi - v then lo
               else if hi - v < v - lo then hi
               else if even (lo div p) then lo else hi)
         else if roundNat lo = v then lo
         else if roundNat hi = v then hi
         else if p < 10 then v
         else shortest v (p div 10))"
  by pat_completeness auto
termination
  by (relation "measure (\<lambda>(v, p). p)") auto

declare shortest.simps [simp del]

definition stripZeros :: "string \<Rightarrow> string" where
  "stripZeros s = rev (dropWhile (\<lambda>c. c = CHR ''0'') (rev s))"

text \<open>
  \<^verbatim>\<open>Number.prototype.toString\<close> on a non-negative integer-valued number: up to
  \<open>2^53\<close> every integer is a number and is printed as it is; above, the shortest decimal
  is printed, with an exponent from \<open>10^21\<close> on.
\<close>

definition natToString :: "nat \<Rightarrow> string" where
  "natToString v =
     (if v \<le> 9007199254740992 then string_of_nat v
      else
        let c = shortest v (10 ^ (length (string_of_nat v) - 1))
        in if c < 10 ^ 21 then string_of_nat c
           else
             (case stripZeros (string_of_nat c) of
                [] \<Rightarrow> []
              | d # ds \<Rightarrow> d # (if ds = [] then [] else CHR ''.'' # ds)) @
             ''e+'' @ string_of_nat (length (string_of_nat c) - 1))"

fun toString :: "jsnum \<Rightarrow> string" where
  "toString NaN = ''NaN''"
| "toString Infinity = ''Infinity''"
| "toString NegInfinity = ''-Infinity''"
| "toString (Num i) = (if i < 0 then CHR ''-'' # natToString (nat (- i)) else natToString (nat i))"

subsection \<open>parseInt\<close>

text \<open>
  \<^verbatim>\<open>parseInt(v)\<close> with no radix: the argument is converted to a string, leading white
  space is skipped, a sign is read, a \<^verbatim>\<open>0x\<close> prefix selects radix 16, and the longest
  prefix of digits is the value, rounded to a number; no digit at all gives \<^verbatim>\<open>NaN\<close>.
  White space is the tab, the line and form feeds, the carriage return, the space, and in
  UTF-8 the no-break space U+00A0, U+1680, U+2000 to U+200A, the line and paragraph
  separators U+2028 and U+2029, U+202F, U+205F, U+3000 and the byte order mark U+FEFF.
\<close>

definition isWhiteSpace1 :: "char \<Rightarrow> bool" where
  "isWhiteSpace1 a = (a \<in> set [CHR 0x09, CHR 0x0A, CHR 0x0B, CHR 0x0C, CHR 0x0D, CHR 0x20])"

definition isWhiteSpace2 :: "char \<Rightarrow> char \<Rightarrow> bool" where
  "isWhiteSpace2 a b = (a = CHR 0xC2 \<and> b = CHR 0xA0)"

definition isWhiteSpace3 :: "char \<Rightarrow> char \<Rightarrow> char \<Rightarrow> bool" where
  "isWhiteSpace3 a b c =
     ((a = CHR 0xE1 \<and> b = CHR 0x9A \<and> c = CHR 0x80) \<or>
      (a = CHR 0xE2 \<and> b = CHR 0x80 \<and>
         c \<in> set [CHR 0x80, CHR 0x81, CHR 0x82, CHR 0x83, CHR 0x84, CHR 0x85, CHR 0x86, CHR 0x87,
                  CHR 0x88, CHR 0x89, CHR 0x8A, CHR 0xA8, CHR 0xA9, CHR 0xAF]) \<or>
      (a = CHR 0xE2 \<and> b = CHR 0x81 \<and> c = CHR 0x9F) \<or>
      (a = CHR 0xE3 \<and> b = CHR 0x80 \<and> c = CHR 0x80) \<or>
      (a = CHR 0xEF \<and> b = CHR 0xBB \<and> c = CHR 0xBF))"

fun skipWhiteSpace :: "string \<Rightarrow> string" where
  "skipWhiteSpace (a # b # c # cs) =
     (if isWhiteSpace1 a then skipWhiteSpace (b # c # cs)
      else if isWhiteSpace2 a b then skipWhiteSpace (c # cs)
      else if isWhiteSpace3 a b c then skipWhiteSpace cs
      else a # b # c # cs)"
| "skipWhiteSpace [a, b] =
     (if isWhiteSpace1 a then skipWhiteSpace [b]
      else if isWhiteSpace2 a b then []
      else [a, b])"
| "skipWhiteSpace [a] = (if isWhiteSpace1 a then [] else [a])"
| "skipWhiteSpace [] = []"

definition digitValue :: "char \<Rightarrow> nat option" where
  "digitValue c =
     (let n = (of_char c :: nat) in
      if 48 \<le> n \<and> n \<le> 57 then Some (n - 48)
      else if 97 \<le> n \<and> n \<le> 122 then Some (n - 87)
      else if 65 \<le> n \<and> n \<le> 90 then Some (n - 55)
      else None)"

fun parseDigits :: "nat \<Rightarrow> nat option \<Rightarrow> string \<Rightarrow> nat option" where
  "parseDigits R acc [] = acc"
| "parseDigits R acc (c # cs) =
     (case digitValue c of
        None \<Rightarrow> acc
      | Some d \<Rightarrow>
          if d < R
          then parseDigits R (Some ((case acc of None \<Rightarrow> 0 | Some a \<Rightarrow> a) * R + d)) cs
          else acc)"

fun stripSign :: "string \<Rightarrow> int \<times> string" where
  "stripSign (c # cs) =
     (if c = CHR ''-'' then (-1, cs) else if c = CHR ''+'' then (1, cs) else (1, c # cs))"
| "stripSign [] = (1, [])"

fun stripPrefix :: "string \<Rightarrow> nat \<times> string" where
  "stripPrefix (a # b # cs) =
     (if a = CHR ''0'' \<and> (b = CHR ''x'' \<or> b = CHR ''X'') then (16, cs) else (10, a # b # cs))"
| "stripPrefix cs = (10, cs)"

definition parseInt_string :: "string \<Rightarrow> jsnum" where
  "parseInt_string s =
     (case stripSign (skipWhiteSpace s) of
        (sign, s1) \<Rightarrow>
          (case stripPrefix s1 of
             (R, s2) \<Rightarrow>
               (case parseDigits R None s2 of
                  None \<Rightarrow> NaN
                | Some n \<Rightarrow> toNumber (sign * int n))))"

text \<open>
  The argument is converted to a string first: a number is printed, the absent property
  is \<^verbatim>\<open>"undefined"\<close>, and any other value has the text it converts to.
\<close>

fun parseInt :: "jsval \<Rightarrow> jsnum" where
  "parseInt (JString s) = parseInt_string s"
| "parseInt (JNumber n) = parseInt_string (toString (toNumber n))"
| "parseInt JUndefined = parseInt_string ''undefined''"
| "parseInt (JOther t s) = parseInt_string s"

section \<open>Configuration, errors and the expression helpers\<close>

text \<open>
  \<^verbatim>\<open>FailOpenConfig\<close>. The \<^verbatim>\<open>dynamodb\<close> handle is the storage backend, which is
  outside the program: its replies are inputs of the model. An absent
  \<^verbatim>\<open>trustLocalTime\<close> is falsy and is the value \<open>False\<close>.
\<close>

record FailOpenConfig =
  ownerName :: string
  lockTable :: string
  partitionKey :: string
  sortKey :: "string option"
  heartbeatPeriodMs :: "int option"
  leaseDuration :: int
  leaseUnit :: string
  trustLocalTime :: bool
  retryCount :: "int option"

text \<open>
  Errors: a plain \<^verbatim>\<open>Error\<close> raised by the program, an error delivered by the storage
  client (with its \<^verbatim>\<open>name\<close>, its \<^verbatim>\<open>code\<close> if it has that property, and its message),
  and \<^verbatim>\<open>FailOpenError(message, code, originalError)\<close>. The program reads \<^verbatim>\<open>code\<close> only.
\<close>

datatype error =
    Error string
  | StorageError string "string option" string
  | FailOpenError string string error

fun name :: "error \<Rightarrow> string" where
  "name (Error m) = ''Error''"
| "name (StorageError n c m) = n"
| "name (FailOpenError m c e) = ''Error''"

fun code :: "error \<Rightarrow> string option" where
  "code (Error m) = None"
| "code (StorageError n c m) = c"
| "code (FailOpenError m c e) = Some c"

definition buildAttributeExistsExpression :: "string option \<Rightarrow> string" where
  "buildAttributeExistsExpression sk =
     (let expr = ''attribute_exists(#partitionKey)'' in
      if truthy_str sk
      then ''('' @ (expr @ '' and attribute_exists(#sortKey)'') @ '')''
      else expr)"

definition buildAttributeNotExistsExpression :: "string option \<Rightarrow> string" where
  "buildAttributeNotExistsExpression sk =
     (let expr = ''attribute_not_exists(#partitionKey)'' in
      if truthy_str sk
      then ''('' @ (expr @ '' and attribute_not_exists(#sortKey)'') @ '')''
      else expr)"

definition buildExpressionAttributeNames :: "string \<Rightarrow> string option \<Rightarrow> (string \<rightharpoonup> string)" where
  "buildExpressionAttributeNames pk sk =
     (let names = [''#partitionKey'' \<mapsto> pk] in
      if truthy_str sk then names(''#sortKey'' \<mapsto> key_of sk) else names)"

definition getMsForLease :: "jsnum \<Rightarrow> string \<Rightarrow> error + jsnum" where
  "getMsForLease time unit =
     (if unit = ''milliseconds'' then Inr time
      else if unit = ''seconds'' then Inr (jsTimes time 1000)
      else if unit = ''minutes'' then Inr (jsTimes (jsTimes time 1000) 60)
      else if unit = ''hours'' then Inr (jsTimes (jsTimes (jsTimes time 1000) 60) 60)
      else if unit = ''days'' then Inr (jsTimes (jsTimes (jsTimes (jsTimes time 1000) 60) 60) 24)
      else Inl (Error (''Invalid lease unit: '' @ unit)))"

text \<open>\<^verbatim>\<open>leaseDuration || 10000\<close> on the configured lease duration, as a number.\<close>

definition leaseOrDefault :: "int \<Rightarrow> jsnum" where
  "leaseOrDefault d = toNumber (if d \<noteq> 0 then d else 10000)"

section \<open>The lock client: construction\<close>

definition reservedFieldNames :: "string list" where
  "reservedFieldNames =
     [''leaseDuration'', ''lockAcquiredTimeUnixMs'', ''ownerName'', ''recordVersionNumber'']"

record FailOpen =
  fo_config :: FailOpenConfig
  fo_retryCount :: int

text \<open>The constructor of \<^verbatim>\<open>FailOpen\<close>: \<open>Inl\<close> is the error it throws.\<close>

definition new_FailOpen :: "FailOpenConfig \<Rightarrow> error + FailOpen" where
  "new_FailOpen cfg =
     (if partitionKey cfg \<in> set reservedFieldNames
      then Inl (Error (''Cannot use reserved field name '' @ partitionKey cfg @ '' for partition key.''))
      else if truthy_str (sortKey cfg) \<and> key_of (sortKey cfg) \<in> set reservedFieldNames
      then Inl (Error (''Cannot use reserved field name '' @ key_of (sortKey cfg) @ '' for sort key.''))
      else Inr \<lparr> fo_config = cfg,
                 fo_retryCount = (case retryCount cfg of None \<Rightarrow> 1 | Some n \<Rightarrow> n) \<rparr>)"

section \<open>The lock client: acquisition\<close>

text \<open>
  The lock id given to \<^verbatim>\<open>acquireLock\<close>: \<open>Structured\<close> when
  \<^verbatim>\<open>typeof id === "object"\<close>, \<open>Scalar\<close> otherwise.
\<close>

datatype lock_id = Scalar jsval | Structured obj

record AcquireLockData =
  a_partitionID :: jsval
  a_recordVersionNumber :: string
  a_sortID :: jsval
  a_ownerName :: string
  a_retryCount :: int

record LockData = FailOpenConfig +
  partitionID :: jsval
  recordVersionNumber :: string
  sortID :: jsval

record GetCommandInput =
  g_TableName :: string
  g_Key :: obj
  g_ConsistentRead :: bool

text \<open>An absent \<^verbatim>\<open>ExpressionAttributeValues\<close> is the empty object.\<close>

record PutCommandInput =
  p_TableName :: string
  p_Item :: obj
  p_ConditionExpression :: string
  p_ExpressionAttributeNames :: "string \<rightharpoonup> string"
  p_ExpressionAttributeValues :: obj

text \<open>
  The program is written in continuation-passing style: every method ends by doing one
  thing, and the rest happens in the continuation it registered. An \<open>action\<close> is that
  one thing: calling the caller's callback (with the configuration of the
  \<^verbatim>\<open>Lock\<close> it constructs, on success), sending a command whose reply resumes the
  protocol with the data bag, arming the wait timer, or throwing.
\<close>

datatype action =
    Callback "error option" "LockData option"
  | SendGet GetCommandInput AcquireLockData
  | SendPut PutCommandInput AcquireLockData
  | SetTimeout jsnum AcquireLockData obj
  | Throw error

text \<open>The reply of the storage client to a get: an error, or the data with its item or none.\<close>

datatype get_reply = GetFailed error | GetItem "obj option"

definition checkForExistingLock :: "FailOpen \<Rightarrow> AcquireLockData \<Rightarrow> action" where
  "checkForExistingLock fo dataBag =
     (let cfg = fo_config fo;
          key = [partitionKey cfg \<mapsto> a_partitionID dataBag];
          key' = (if truthy_str (sortKey cfg) then key(key_of (sortKey cfg) \<mapsto> a_sortID dataBag)
                  else key)
      in SendGet \<lparr> g_TableName = lockTable cfg, g_Key = key', g_ConsistentRead = True \<rparr> dataBag)"

definition acquireLock :: "FailOpen \<Rightarrow> lock_id \<Rightarrow> string \<Rightarrow> string \<Rightarrow> action" where
  \<comment> \<open>\<open>defaultOwner\<close> is the package, user and host string; \<open>uuid\<close> is \<^verbatim>\<open>crypto.randomUUID()\<close>\<close>
  "acquireLock fo lid defaultOwner uuid =
     (let cfg = fo_config fo;
          pid = (case lid of Structured m \<Rightarrow> computedProp m (partitionKey cfg) | Scalar v \<Rightarrow> v);
          sid = (case lid of
                   Structured m \<Rightarrow> computedProp m (key_of (sortKey cfg))
                 | Scalar v \<Rightarrow> JUndefined)
      in if truthy_str (sortKey cfg) \<and> sid = JUndefined
         then Callback (Some (Error ''Lock ID is missing required sortKey value'')) None
         else checkForExistingLock fo
                \<lparr> a_partitionID = pid,
                  a_recordVersionNumber = uuid,
                  a_sortID = sid,
                  a_ownerName = (if ownerName cfg \<noteq> [] then ownerName cfg else defaultOwner),
                  a_retryCount = fo_retryCount fo \<rparr>)"

definition tryAcquireLock :: "PutCommandInput \<Rightarrow> AcquireLockData \<Rightarrow> action" where
  "tryAcquireLock params dataBag = SendPut params dataBag"

text \<open>
  The item both conditional writes put: the object literal, then the two conditional
  assignments, in the order of the source (a later assignment to the same name wins).
\<close>

definition lockItem :: "FailOpenConfig \<Rightarrow> AcquireLockData \<Rightarrow> jsnum \<Rightarrow> int \<Rightarrow> string \<Rightarrow> obj" where
  "lockItem cfg dataBag ms now isoTime =
     (let item = [partitionKey cfg \<mapsto> a_partitionID dataBag,
                  ''leaseDuration'' \<mapsto> JString (toString ms),
                  ''ownerName'' \<mapsto> JString (a_ownerName dataBag),
                  ''recordVersionNumber'' \<mapsto> JString (a_recordVersionNumber dataBag),
                  ''createdAt'' \<mapsto> JString isoTime];
          item1 = (if trustLocalTime cfg then item(''lockAcquiredTimeUnixMs'' \<mapsto> JNumber now) else item)
      in if truthy (a_sortID dataBag) then item1(key_of (sortKey cfg) \<mapsto> a_sortID dataBag) else item1)"

definition acquireNewLock :: "FailOpen \<Rightarrow> AcquireLockData \<Rightarrow> int \<Rightarrow> string \<Rightarrow> action" where
  "acquireNewLock fo dataBag now isoTime =
     (let cfg = fo_config fo in
      case getMsForLease (leaseOrDefault (leaseDuration cfg)) (leaseUnit cfg) of
        Inl e \<Rightarrow> Throw e
      | Inr ms \<Rightarrow>
          tryAcquireLock
            \<lparr> p_TableName = lockTable cfg,
              p_Item = lockItem cfg dataBag ms now isoTime,
              p_ConditionExpression = buildAttributeNotExistsExpression (sortKey cfg),
              p_ExpressionAttributeNames = buildExpressionAttributeNames (partitionKey cfg) (sortKey cfg),
              p_ExpressionAttributeValues = Map.empty \<rparr>
            dataBag)"

definition acquireExistingLock :: "FailOpen \<Rightarrow> AcquireLockData \<Rightarrow> obj \<Rightarrow> int \<Rightarrow> string \<Rightarrow> action" where
  "acquireExistingLock fo dataBag lock now isoTime =
     (let cfg = fo_config fo in
      case getMsForLease (leaseOrDefault (leaseDuration cfg)) (leaseUnit cfg) of
        Inl e \<Rightarrow> Throw e
      | Inr ms \<Rightarrow>
          tryAcquireLock
            \<lparr> p_TableName = lockTable cfg,
              p_Item = lockItem cfg dataBag ms now isoTime,
              p_ConditionExpression =
                buildAttributeNotExistsExpression (sortKey cfg) @
                '' or (recordVersionNumber = :recordVersionNumber)'',
              p_ExpressionAttributeNames = buildExpressionAttributeNames (partitionKey cfg) (sortKey cfg),
              p_ExpressionAttributeValues =
                ['':recordVersionNumber'' \<mapsto> getProp lock ''recordVersionNumber''] \<rparr>
            dataBag)"

text \<open>
  The delay computed in the get continuation from the item read, and handed to
  \<^verbatim>\<open>setTimeout\<close>. The clock reading is a whole number of milliseconds.
\<close>

definition leaseDurationMs :: "obj \<Rightarrow> jsnum" where
  "leaseDurationMs item = jsOr (parseInt (getProp item ''leaseDuration'')) (Num 10000)"

definition timeout :: "FailOpenConfig \<Rightarrow> obj \<Rightarrow> int \<Rightarrow> jsnum" where
  "timeout cfg item localTimeUnixMs =
     (if trustLocalTime cfg
      then (let lockAcquiredTimeUnixMs = parseInt (getProp item ''lockAcquiredTimeUnixMs'')
            in jsMax0 (jsSub (leaseDurationMs item)
                         (jsSub (toNumber localTimeUnixMs) lockAcquiredTimeUnixMs)))
      else leaseDurationMs item)"

text \<open>
  The timer of the runtime: \<^verbatim>\<open>setTimeout(f, after)\<close> runs \<open>f\<close> once \<open>after\<close> milliseconds
  have passed, where an \<open>after\<close> that is not a number from 1 to \<open>2^31 - 1\<close> is replaced
  by 1.
\<close>

definition timerDelay :: "jsnum \<Rightarrow> int" where
  "timerDelay after =
     (case after of
        Num n \<Rightarrow> if 1 \<le> n \<and> n \<le> 2147483647 then n else 1
      | _ \<Rightarrow> 1)"

text \<open>The continuation of the get sent by \<open>checkForExistingLock\<close>.\<close>

definition checkForExistingLock_reply ::
  "FailOpen \<Rightarrow> AcquireLockData \<Rightarrow> int \<Rightarrow> string \<Rightarrow> get_reply \<Rightarrow> action" where
  "checkForExistingLock_reply fo dataBag now isoTime r =
     (case r of
        GetFailed e \<Rightarrow> Callback (Some e) None
      | GetItem None \<Rightarrow> acquireNewLock fo dataBag now isoTime
      | GetItem (Some item) \<Rightarrow> SetTimeout (timeout (fo_config fo) item now) dataBag item)"

text \<open>The continuation of the put sent by \<open>tryAcquireLock\<close>.\<close>

definition tryAcquireLock_reply :: "FailOpen \<Rightarrow> AcquireLockData \<Rightarrow> error option \<Rightarrow> action" where
  "tryAcquireLock_reply fo dataBag r =
     (let cfg = fo_config fo in
      case r of
        Some e \<Rightarrow>
          if code e = Some ''ConditionalCheckFailedException''
          then (if a_retryCount dataBag > 0
                then checkForExistingLock fo (dataBag\<lparr> a_retryCount := a_retryCount dataBag - 1 \<rparr>)
                else Callback (Some (FailOpenError ''Failed to acquire lock.'' ''FailedToAcquireLock'' e)) None)
          else Callback (Some e) None
      | None \<Rightarrow>
          Callback None
            (Some \<lparr> ownerName = a_ownerName dataBag,
                    lockTable = lockTable cfg,
                    partitionKey = partitionKey cfg,
                    sortKey = sortKey cfg,
                    heartbeatPeriodMs = heartbeatPeriodMs cfg,
                    leaseDuration = (if leaseDuration cfg \<noteq> 0 then leaseDuration cfg else 10000),
                    leaseUnit = leaseUnit cfg,
                    trustLocalTime = trustLocalTime cfg,
                    retryCount = None,
                    partitionID = a_partitionID dataBag,
                    recordVersionNumber = a_recordVersionNumber dataBag,
                    sortID = a_sortID dataBag \<rparr>))"

text \<open>
  What the event loop delivers to a pending acquisition: the reply to the get (with the
  clock readings the continuation takes), the wait timer once so many milliseconds have
  passed since it was armed (likewise), or the reply to the put. \<open>drive\<close> resumes the
  pending action with each delivery in turn; a delivery that does not answer the pending
  action, a timer whose delay has not yet passed, and any delivery once the callback has
  been called, leave the action as it is.
\<close>

datatype delivery =
    GetReply get_reply int string
  | TimerExpired int int string
  | PutReply "error option"

fun resume :: "FailOpen \<Rightarrow> action \<Rightarrow> delivery \<Rightarrow> action" where
  "resume fo (SendGet p dataBag) (GetReply r now isoTime) = checkForExistingLock_reply fo dataBag now isoTime r"
| "resume fo (SetTimeout t dataBag item) (TimerExpired waited now isoTime) =
     (if timerDelay t \<le> waited then acquireExistingLock fo dataBag item now isoTime
      else SetTimeout t dataBag item)"
| "resume fo (SendPut p dataBag) (PutReply r) = tryAcquireLock_reply fo dataBag r"
| "resume fo a d = a"

fun drive :: "FailOpen \<Rightarrow> action \<Rightarrow> delivery list \<Rightarrow> action" where
  "drive fo a [] = a"
| "drive fo a (d # ds) = drive fo (resume fo a d) ds"

section \<open>The held lock\<close>

record DeleteCommandInput =
  d_TableName :: string
  d_Key :: obj
  d_ConditionExpression :: string
  d_ExpressionAttributeNames :: "string \<rightharpoonup> string"
  d_ExpressionAttributeValues :: obj

text \<open>
  The fields of \<^verbatim>\<open>Lock\<close>. A completion callback passed to \<^verbatim>\<open>release\<close> is
  identified by a number, so \<open>refreshCallback\<close> holds the callback bound into the deferred
  \<^verbatim>\<open>release\<close>; \<open>heartbeatTimeout\<close> holds the handle of the last timer armed.
\<close>

record Lock =
  config :: LockData
  l_recordVersionNumber :: string
  released :: bool
  refreshing :: bool
  refreshCallback :: "nat option"
  heartbeatTimeout :: "nat option"

text \<open>What the lock does that can be seen from outside, in the order it does it.\<close>

datatype warning = ReleaseConditionalCheckFailed | ReleaseThrew error

datatype effect =
    DeleteSent DeleteCommandInput
  | PutSent PutCommandInput
  | Scheduled nat "int option"
  | Called nat "error option"
  | Warned warning
  | Emitted error
  | Uncaught error

text \<open>
  A lock together with the part of the event loop that belongs to it: the armed timers
  (each will call \<^verbatim>\<open>refreshLock\<close>), the renewal writes in flight (each with the
  \<^verbatim>\<open>newGuid\<close> its continuation closed over), the deletes in flight (each with the callback
  its continuation closed over), and the outputs so far. \<open>send_throws\<close> is the exception
  the storage client throws synchronously when asked to send a command, if it does.
\<close>

record runtime =
  lock :: Lock
  timers :: "nat list"
  next_handle :: nat
  puts :: "(PutCommandInput \<times> string) list"
  deletes :: "(DeleteCommandInput \<times> nat) list"
  trace :: "effect list"
  send_throws :: "error option"

definition truthy_num :: "int option \<Rightarrow> bool" where
  "truthy_num n = (case n of None \<Rightarrow> False | Some i \<Rightarrow> i \<noteq> 0)"

text \<open>\<^verbatim>\<open>this.heartbeatTimeout = setTimeout(this.refreshLock.bind(this), delay)\<close>\<close>

definition armHeartbeat :: "runtime \<Rightarrow> runtime" where
  "armHeartbeat w =
     w\<lparr> lock := (lock w)\<lparr> heartbeatTimeout := Some (next_handle w) \<rparr>,
        timers := timers w @ [next_handle w],
        next_handle := Suc (next_handle w),
        trace := trace w @ [Scheduled (next_handle w) (heartbeatPeriodMs (config (lock w)))] \<rparr>"

text \<open>The constructor of \<^verbatim>\<open>Lock\<close>, in a fresh event loop.\<close>

definition new_Lock :: "LockData \<Rightarrow> error option \<Rightarrow> runtime" where
  "new_Lock ld thr =
     (let w = \<lparr> lock = \<lparr> config = ld, l_recordVersionNumber = recordVersionNumber ld,
                          released = False, refreshing = False, refreshCallback = None,
                          heartbeatTimeout = None \<rparr>,
                 timers = [], next_handle = 0, puts = [], deletes = [], trace = [],
                 send_throws = thr \<rparr>
      in if truthy_num (heartbeatPeriodMs ld) then armHeartbeat w else w)"

text \<open>The \<^verbatim>\<open>params\<close> that \<^verbatim>\<open>release\<close> builds for its \<^verbatim>\<open>DeleteCommand\<close>.\<close>

definition release_params :: "Lock \<Rightarrow> DeleteCommandInput" where
  "release_params l =
     (let cfg = config l;
          key = [partitionKey cfg \<mapsto> partitionID cfg]
      in \<lparr> d_TableName = lockTable cfg,
           d_Key = (if truthy_str (sortKey cfg) then key(key_of (sortKey cfg) \<mapsto> sortID cfg)
                    else key),
           d_ConditionExpression =
             buildAttributeExistsExpression (sortKey cfg) @
             '' and recordVersionNumber = :recordVersionNumber'',
           d_ExpressionAttributeNames =
             buildExpressionAttributeNames (partitionKey cfg) (sortKey cfg),
           d_ExpressionAttributeValues =
             ['':recordVersionNumber'' \<mapsto> JString (l_recordVersionNumber l)] \<rparr>)"

definition release :: "nat \<Rightarrow> runtime \<Rightarrow> runtime" where
  "release callback w =
     (if released (lock w) then w
      else if refreshing (lock w)
      then w\<lparr> lock := (lock w)\<lparr> refreshCallback := Some callback \<rparr> \<rparr>
      else
        let w1 = w\<lparr> lock := (lock w)\<lparr> released := True \<rparr> \<rparr>;
            w2 = (case heartbeatTimeout (lock w1) of
                    Some h \<Rightarrow> w1\<lparr> timers := removeAll h (timers w1),
                                  lock := (lock w1)\<lparr> heartbeatTimeout := None \<rparr> \<rparr>
                  | None \<Rightarrow> w1);
            params = release_params (lock w2)
        in case send_throws w2 of
             Some e \<Rightarrow> w2\<lparr> trace := trace w2 @ [Warned (ReleaseThrew e), Called callback None] \<rparr>
           | None \<Rightarrow> w2\<lparr> deletes := deletes w2 @ [(params, callback)],
                          trace := trace w2 @ [DeleteSent params] \<rparr>)"

text \<open>The continuation of the delete sent by \<open>release\<close>.\<close>

definition release_reply :: "nat \<Rightarrow> error option \<Rightarrow> runtime \<Rightarrow> runtime" where
  "release_reply callback r w =
     (let warn = (case r of
                    Some e \<Rightarrow> if code e = Some ''ConditionalCheckFailedException''
                              then [Warned ReleaseConditionalCheckFailed] else []
                  | None \<Rightarrow> [])
      in w\<lparr> trace := trace w @ warn @ [Called callback None] \<rparr>)"

text \<open>The \<^verbatim>\<open>params\<close> that \<^verbatim>\<open>refreshLock\<close> builds for its \<^verbatim>\<open>PutCommand\<close>.\<close>

definition refreshLock_params :: "Lock \<Rightarrow> jsnum \<Rightarrow> string \<Rightarrow> int \<Rightarrow> string \<Rightarrow> PutCommandInput" where
  "refreshLock_params l ms newGuid now isoTime =
     (let cfg = config l;
          item = [partitionKey cfg \<mapsto> partitionID cfg,
                  ''leaseDuration'' \<mapsto> JString (toString ms),
                  ''ownerName'' \<mapsto> JString (ownerName cfg),
                  ''recordVersionNumber'' \<mapsto> JString newGuid,
                  ''createdAt'' \<mapsto> JString isoTime];
          item1 = (if trustLocalTime cfg then item(''lockAcquiredTimeUnixMs'' \<mapsto> JNumber now)
                   else item);
          item2 = (if truthy_str (sortKey cfg) then item1(key_of (sortKey cfg) \<mapsto> sortID cfg)
                   else item1)
      in \<lparr> p_TableName = lockTable cfg,
           p_Item = item2,
           p_ConditionExpression =
             buildAttributeExistsExpression (sortKey cfg) @
             '' and recordVersionNumber = :recordVersionNumber'',
           p_ExpressionAttributeNames =
             buildExpressionAttributeNames (partitionKey cfg) (sortKey cfg),
           p_ExpressionAttributeValues =
             ['':recordVersionNumber'' \<mapsto> JString (l_recordVersionNumber l)] \<rparr>)"

definition refreshLock :: "string \<Rightarrow> int \<Rightarrow> string \<Rightarrow> runtime \<Rightarrow> runtime" where
  "refreshLock newGuid now isoTime w =
     (let cfg = config (lock w);
          w1 = w\<lparr> lock := (lock w)\<lparr> refreshing := True \<rparr> \<rparr>
      in case getMsForLease (leaseOrDefault (leaseDuration cfg)) (leaseUnit cfg) of
           Inl e \<Rightarrow> w1\<lparr> trace := trace w1 @ [Uncaught e] \<rparr>
         | Inr ms \<Rightarrow>
             let params = refreshLock_params (lock w1) ms newGuid now isoTime
             in case send_throws w1 of
                  Some e \<Rightarrow> w1\<lparr> trace := trace w1 @ [Uncaught e] \<rparr>
                | None \<Rightarrow> w1\<lparr> puts := puts w1 @ [(params, newGuid)],
                               trace := trace w1 @ [PutSent params] \<rparr>)"

text \<open>
  The continuation of the put sent by \<open>refreshLock\<close>, statement by statement: the flag is
  cleared, a deferred release is called, the slot is emptied, and only then is the result
  of the write looked at.
\<close>

definition refreshLock_reply :: "string \<Rightarrow> error option \<Rightarrow> runtime \<Rightarrow> runtime" where
  "refreshLock_reply newGuid r w =
     (let w1 = w\<lparr> lock := (lock w)\<lparr> refreshing := False \<rparr> \<rparr>;
          w2 = (case refreshCallback (lock w1) of Some callback \<Rightarrow> release callback w1 | None \<Rightarrow> w1);
          w3 = w2\<lparr> lock := (lock w2)\<lparr> refreshCallback := None \<rparr> \<rparr>
      in case r of
           Some e \<Rightarrow> w3\<lparr> trace := trace w3 @ [Emitted e] \<rparr>
         | None \<Rightarrow>
             let w4 = w3\<lparr> lock := (lock w3)\<lparr> l_recordVersionNumber := newGuid \<rparr> \<rparr>
             in if \<not> released (lock w4) then armHeartbeat w4 else w4)"

text \<open>
  The events of the event loop that reach the lock: the caller calls \<^verbatim>\<open>release\<close>; an
  armed timer fires (with the identifier and clock readings \<^verbatim>\<open>refreshLock\<close> will draw);
  the oldest renewal write in flight returns; the oldest delete in flight returns. An
  event of something that is not pending does not happen.
\<close>

datatype event =
    Release nat
  | TimerFires nat string int string
  | PutReturns "error option"
  | DeleteReturns "error option"

fun step :: "runtime \<Rightarrow> event \<Rightarrow> runtime" where
  "step w (Release callback) = release callback w"
| "step w (TimerFires h newGuid now isoTime) =
     (if h \<in> set (timers w) then refreshLock newGuid now isoTime (w\<lparr> timers := removeAll h (timers w) \<rparr>)
      else w)"
| "step w (PutReturns r) =
     (case puts w of
        [] \<Rightarrow> w
      | (params, newGuid) # rest \<Rightarrow> refreshLock_reply newGuid r (w\<lparr> puts := rest \<rparr>))"
| "step w (DeleteReturns r) =
     (case deletes w of
        [] \<Rightarrow> w
      | (params, callback) # rest \<Rightarrow> release_reply callback r (w\<lparr> deletes := rest \<rparr>))"

definition run :: "runtime \<Rightarrow> event list \<Rightarrow> runtime" where
  "run w evs = foldl step w evs"

fun isDeleteSent :: "effect \<Rightarrow> bool" where
  "isDeleteSent (DeleteSent p) = True"
| "isDeleteSent x = False"

fun isCalled :: "effect \<Rightarrow> bool" where
  "isCalled (Called c e) = True"
| "isCalled x = False"

fun isWarned :: "effect \<Rightarrow> bool" where
  "isWarned (Warned x) = True"
| "isWarned x = False"

fun isEmitted :: "effect \<Rightarrow> bool" where
  "isEmitted (Emitted e) = True"
| "isEmitted x = False"

fun isRenewal :: "effect \<Rightarrow> bool" where
  "isRenewal (PutSent p) = True"
| "isRenewal (Scheduled h d) = True"
| "isRenewal x = False"

text \<open>
  The shape of the event loop's share of a lock: at most one timer armed or renewal write in
  flight; an armed timer is the one \<open>heartbeatTimeout\<close> holds, on a lock not yet
  released; a write in flight has \<open>refreshing\<close> set; and \<open>refreshing\<close> is only set on a
  lock not yet released.
\<close>

definition coherent :: "runtime \<Rightarrow> bool" where
  "coherent w =
     (length (puts w) \<le> 1 \<and>
      (timers w \<noteq> [] \<longrightarrow>
         puts w = [] \<and> \<not> released (lock w) \<and> map Some (timers w) = [heartbeatTimeout (lock w)]) \<and>
      (puts w \<noteq> [] \<longrightarrow> refreshing (lock w) \<and> send_throws w = None) \<and>
      (refreshing (lock w) \<longrightarrow> \<not> released (lock w)))"

text \<open>No timer armed and no renewal write in flight: nothing is left that could renew.\<close>

definition quiet :: "runtime \<Rightarrow> bool" where
  "quiet w = (timers w = [] \<and> puts w = [])"

text \<open>
  A delete has been sent at most once, and only by a lock that is now released (so none is
  in flight before that).
\<close>

definition deleted_once :: "runtime \<Rightarrow> bool" where
  "deleted_once w =
     (length (filter isDeleteSent (trace w)) \<le> 1 \<and>
      (\<not> released (lock w) \<longrightarrow> filter isDeleteSent (trace w) = [] \<and> deletes w = []))"

section \<open>Condition expressions\<close>

text \<open>
  The storage backend is outside the program; the program only hands it the text of a
  condition, with the placeholders \<^verbatim>\<open>#name\<close> and \<^verbatim>\<open>:value\<close> explained by two maps. To
  say what such a text demands, the fragment of the backend's condition grammar that the
  program uses is given as a syntax tree, with the text it is written as (\<open>render\<close>) and
  what it demands (\<open>holds\<close>) of the item stored under the key of the request, if there is
  one. A placeholder that the maps do not explain satisfies nothing.
\<close>

datatype cond =
    AttributeExists string
  | AttributeNotExists string
  | Equals string string
  | And cond cond
  | Or cond cond
  | Paren cond

fun render :: "cond \<Rightarrow> string" where
  "render (AttributeExists n) = ''attribute_exists('' @ n @ '')''"
| "render (AttributeNotExists n) = ''attribute_not_exists('' @ n @ '')''"
| "render (Equals n v) = n @ '' = '' @ v"
| "render (And a b) = render a @ '' and '' @ render b"
| "render (Or a b) = render a @ '' or '' @ render b"
| "render (Paren a) = ''('' @ render a @ '')''"

fun attributeName :: "(string \<rightharpoonup> string) \<Rightarrow> string \<Rightarrow> string option" where
  "attributeName names [] = None"
| "attributeName names (c # cs) = (if c = CHR ''#'' then names (c # cs) else Some (c # cs))"

fun holds :: "(string \<rightharpoonup> string) \<Rightarrow> obj \<Rightarrow> obj option \<Rightarrow> cond \<Rightarrow> bool" where
  "holds names vals stored (AttributeExists n) =
     (case attributeName names n of
        None \<Rightarrow> False
      | Some a \<Rightarrow> (case stored of None \<Rightarrow> False | Some it \<Rightarrow> it a \<noteq> None))"
| "holds names vals stored (AttributeNotExists n) =
     (case attributeName names n of
        None \<Rightarrow> False
      | Some a \<Rightarrow> (case stored of None \<Rightarrow> True | Some it \<Rightarrow> it a = None))"
| "holds names vals stored (Equals n v) =
     (case attributeName names n of
        None \<Rightarrow> False
      | Some a \<Rightarrow>
          (case stored of
             None \<Rightarrow> False
           | Some it \<Rightarrow> (case vals v of None \<Rightarrow> False | Some x \<Rightarrow> it a = Some x)))"
| "holds names vals stored (And a b) = (holds names vals stored a \<and> holds names vals stored b)"
| "holds names vals stored (Or a b) = (holds names vals stored a \<or> holds names vals stored b)"
| "holds names vals stored (Paren a) = holds names vals stored a"

text \<open>
  The two preconditions in the words of the specification: the record does not exist (for
  a configured sort key, the partition key attribute does not exist and the sort key
  attribute does not exist); and the record does not exist, or its fencing token equals
  the given value.
\<close>

definition spec_recordAbsent :: "string option \<Rightarrow> cond" where
  "spec_recordAbsent sk =
     (if truthy_str sk
      then Paren (And (AttributeNotExists ''#partitionKey'') (AttributeNotExists ''#sortKey''))
      else AttributeNotExists ''#partitionKey'')"

definition spec_absentOrTokenEquals :: "string option \<Rightarrow> cond" where
  "spec_absentOrTokenEquals sk =
     Or (spec_recordAbsent sk) (Paren (Equals ''recordVersionNumber'' '':recordVersionNumber''))"

text \<open>
  The retry budget carried by the data bag of a pending action; an action with no
  continuation carries none.
\<close>

fun budget_le :: "int \<Rightarrow> action \<Rightarrow> bool" where
  "budget_le n (SendGet p dataBag) = (a_retryCount dataBag \<le> n)"
| "budget_le n (SendPut p dataBag) = (a_retryCount dataBag \<le> n)"
| "budget_le n (SetTimeout t dataBag item) = (a_retryCount dataBag \<le> n)"
| "budget_le n (Callback e l) = True"
| "budget_le n (Throw e) = True"

text \<open>
  The wait interval in the words of the specification: the remaining time of the lease
  by the local clock when that clock is trusted, the full lease duration otherwise.
\<close>

definition spec_waitInterval :: "bool \<Rightarrow> int \<Rightarrow> int \<Rightarrow> int \<Rightarrow> int" where
  "spec_waitInterval trust storedLeaseDurationMs storedAcquiredAtMs nowMs =
     (if trust then max 0 (storedLeaseDurationMs - (nowMs - storedAcquiredAtMs))
      else storedLeaseDurationMs)"

text \<open>Example configurations and data used to run the model on concrete inputs.\<close>

definition cfg_plain :: FailOpenConfig where
  "cfg_plain =
     \<lparr> ownerName = ''worker-1'', lockTable = ''locks'', partitionKey = ''id'', sortKey = None,
       heartbeatPeriodMs = Some 3000, leaseDuration = 10, leaseUnit = ''seconds'',
       trustLocalTime = False, retryCount = Some 0 \<rparr>"

definition cfg_trust :: FailOpenConfig where
  "cfg_trust = cfg_plain\<lparr> trustLocalTime := True \<rparr>"

definition cfg_sorted :: FailOpenConfig where
  "cfg_sorted = cfg_plain\<lparr> sortKey := Some ''shard'' \<rparr>"

definition client :: "FailOpenConfig \<Rightarrow> FailOpen" where
  "client cfg = \<lparr> fo_config = cfg, fo_retryCount = (case retryCount cfg of None \<Rightarrow> 1 | Some n \<Rightarrow> n) \<rparr>"

definition bag_A :: AcquireLockData where
  "bag_A =
     \<lparr> a_partitionID = JString ''job'', a_recordVersionNumber = ''B'', a_sortID = JUndefined,
       a_ownerName = ''worker-1'', a_retryCount = 0 \<rparr>"

definition ld_A :: LockData where
  "ld_A =
     \<lparr> ownerName = ''worker-1'', lockTable = ''locks'', partitionKey = ''id'', sortKey = None,
       heartbeatPeriodMs = Some 3000, leaseDuration = 10, leaseUnit = ''seconds'',
       trustLocalTime = False, retryCount = None,
       partitionID = JString ''job'', recordVersionNumber = ''A'', sortID = JUndefined \<rparr>"

definition bag_S :: AcquireLockData where
  "bag_S =
     \<lparr> a_partitionID = JString ''job'', a_recordVersionNumber = ''B'', a_sortID = JNumber 7,
       a_ownerName = ''worker-1'', a_retryCount = 0 \<rparr>"

definition item_A :: obj where
  "item_A =
     [''id'' \<mapsto> JString ''job'', ''shard'' \<mapsto> JNumber 7,
      ''leaseDuration'' \<mapsto> JString ''10000'', ''recordVersionNumber'' \<mapsto> JString ''A'']"

definition put_new_S :: PutCommandInput where
  "put_new_S =
     \<lparr> p_TableName = ''locks'',
       p_Item = lockItem cfg_sorted bag_S (Num 10000) 5000 ''t'',
       p_ConditionExpression = ''(attribute_not_exists(#partitionKey) and attribute_not_exists(#sortKey))'',
       p_ExpressionAttributeNames = [''#partitionKey'' \<mapsto> ''id'', ''#sortKey'' \<mapsto> ''shard''],
       p_ExpressionAttributeValues = Map.empty \<rparr>"

definition put_existing_S :: PutCommandInput where
  "put_existing_S =
     \<lparr> p_TableName = ''locks'',
       p_Item = lockItem cfg_sorted bag_S (Num 10000) 15000 ''u'',
       p_ConditionExpression =
         ''(attribute_not_exists(#partitionKey) and attribute_not_exists(#sortKey)) or (recordVersionNumber = :recordVersionNumber)'',
       p_ExpressionAttributeNames = [''#partitionKey'' \<mapsto> ''id'', ''#sortKey'' \<mapsto> ''shard''],
       p_ExpressionAttributeValues = ['':recordVersionNumber'' \<mapsto> JString ''A''] \<rparr>"

text \<open>
  The rejection of a conditional write as the storage client the program imports
  (\<^verbatim>\<open>@aws-sdk/lib-dynamodb\<close>, version 3) delivers it: an exception with the name
  \<^verbatim>\<open>ConditionalCheckFailedException\<close> and no \<^verbatim>\<open>code\<close> property.
\<close>

definition conditionalCheckFailed :: error where
  "conditionalCheckFailed =
     StorageError ''ConditionalCheckFailedException'' None ''The conditional request failed''"

definition cfg_retry :: FailOpenConfig where
  "cfg_retry = cfg_plain\<lparr> retryCount := Some 1 \<rparr>"

definition cfg_createdAt :: FailOpenConfig where
  "cfg_createdAt = cfg_plain\<lparr> partitionKey := ''createdAt'' \<rparr>"

definition put_createdAt :: PutCommandInput where
  "put_createdAt =
     \<lparr> p_TableName = ''locks'',
       p_Item = lockItem cfg_createdAt bag_A (Num 10000) 5000 ''2026-11-03T10:00:00.000Z'',
       p_ConditionExpression = ''attribute_not_exists(#partitionKey)'',
       p_ExpressionAttributeNames = [''#partitionKey'' \<mapsto> ''createdAt''],
       p_ExpressionAttributeValues = Map.empty \<rparr>"







section \<open>Construction and the reserved field names\<close>

lemma reserved_nonempty: "k \<in> set reservedFieldNames \<Longrightarrow> k \<noteq> []"
  by (auto simp: reservedFieldNames_def)

text \<open>
  What the constructor checks: it throws if and only if the partition key attribute name,
  or the configured sort key attribute name, is one of the four names in
  \<open>reservedFieldNames\<close>.
\<close>

lemma new_FailOpen_throws_iff:
  "((\<exists>e. new_FailOpen cfg = Inl e) =
     (partitionKey cfg \<in> set reservedFieldNames \<or>
      (\<exists>k. sortKey cfg = Some k \<and> k \<in> set reservedFieldNames))) \<and>
   ((\<exists>c. new_FailOpen cfg = Inr c \<and> fo_config c = cfg) =
     (\<not> (partitionKey cfg \<in> set reservedFieldNames \<or>
         (\<exists>k. sortKey cfg = Some k \<and> k \<in> set reservedFieldNames))))"
  by (auto simp: new_FailOpen_def truthy_str_def key_of_def dest: reserved_nonempty split: option.splits)

text \<open>\<^verbatim>\<open>createdAt\<close> is written to every record, under that name.\<close>

lemma lockItem_createdAt: "lockItem cfg dataBag ms now isoTime ''createdAt'' \<noteq> None"
  by (simp add: lockItem_def Let_def)

text \<open>
  C9, on the code. \<^verbatim>\<open>createdAt\<close> is a field the program writes to every record, and it
  is not among the reserved names: a client whose partition key attribute is named
  \<^verbatim>\<open>createdAt\<close> is constructed without error. Acquiring the lock \<open>job\<close> with it reads
  the key \<^verbatim>\<open>createdAt = job\<close>, and then puts an item whose \<^verbatim>\<open>createdAt\<close> is the time
  stamp: the value of the key has been overwritten.
\<close>

theorem C9_createdAt_accepted:
  "new_FailOpen cfg_createdAt = Inr (client cfg_createdAt) \<and>
   acquireLock (client cfg_createdAt) (Scalar (JString ''job'')) ''pkg'' ''B'' =
     SendGet \<lparr> g_TableName = ''locks'', g_Key = [''createdAt'' \<mapsto> JString ''job''],
               g_ConsistentRead = True \<rparr> bag_A \<and>
   checkForExistingLock_reply (client cfg_createdAt) bag_A 5000 ''2026-11-03T10:00:00.000Z'' (GetItem None) =
     SendPut put_createdAt bag_A \<and>
   p_Item put_createdAt ''createdAt'' = Some (JString ''2026-11-03T10:00:00.000Z'')"
proof -
  have c: "fo_config (client cfg_createdAt) = cfg_createdAt" "fo_retryCount (client cfg_createdAt) = 0"
    "partitionKey cfg_createdAt = ''createdAt''" "sortKey cfg_createdAt = None"
    "ownerName cfg_createdAt = ''worker-1''" "lockTable cfg_createdAt = ''locks''"
    "leaseDuration cfg_createdAt = 10" "leaseUnit cfg_createdAt = ''seconds''"
    "\<not> trustLocalTime cfg_createdAt"
    by (simp_all add: client_def cfg_createdAt_def cfg_plain_def)
  have 1: "new_FailOpen cfg_createdAt = Inr (client cfg_createdAt)"
    by (simp add: new_FailOpen_def client_def c reservedFieldNames_def truthy_str_def)
  have 2: "acquireLock (client cfg_createdAt) (Scalar (JString ''job'')) ''pkg'' ''B'' =
     SendGet \<lparr> g_TableName = ''locks'', g_Key = [''createdAt'' \<mapsto> JString ''job''],
               g_ConsistentRead = True \<rparr> bag_A"
    by (simp add: acquireLock_def checkForExistingLock_def c truthy_str_def bag_A_def)
  have 3: "checkForExistingLock_reply (client cfg_createdAt) bag_A 5000 ''2026-11-03T10:00:00.000Z''
      (GetItem None) = SendPut put_createdAt bag_A"
    by (simp add: checkForExistingLock_reply_def acquireNewLock_def tryAcquireLock_def
          getMsForLease_def leaseOrDefault_def toNumber_def c put_createdAt_def
          buildAttributeNotExistsExpression_def buildExpressionAttributeNames_def truthy_str_def)
  have 4: "p_Item put_createdAt ''createdAt'' = Some (JString ''2026-11-03T10:00:00.000Z'')"
    by (simp add: put_createdAt_def lockItem_def c bag_A_def Let_def)
  from 1 2 3 4 show ?thesis by blast
qed

section \<open>Evaluation\<close>

lemmas parse_simps =
  parseInt_string_def isWhiteSpace1_def isWhiteSpace2_def isWhiteSpace3_def digitValue_def
  getProp_def toNumber_def natToString_def string_of_nat.simps

lemma toNumber_exact: "\<bar>i\<bar> \<le> 9007199254740992 \<Longrightarrow> toNumber i = Num i"
  by (simp add: toNumber_def)

text \<open>
  The number model on three inputs: a decimal one above \<open>2^53\<close> is rounded to the nearest
  number; the no-break space is white space; and a stored number of \<open>10^21\<close> is printed
  with an exponent before it is parsed, which leaves its leading digit.
\<close>

lemma parseInt_beyond_2_53:
  "parseInt (JString ''9007199254740993'') = Num 9007199254740992"
proof -
  have "bitlen 9007199254740993 = 54"
    by (simp add: bitlen.simps)
  then have "roundNat 9007199254740993 = 9007199254740992"
    by (simp add: roundNat_def Let_def)
  then have "toNumber 9007199254740993 = Num 9007199254740992"
    by (simp add: toNumber_def)
  moreover have "parseDigits 10 None ''9007199254740993'' = Some 9007199254740993"
    by (simp add: digitValue_def)
  ultimately show ?thesis
    by (simp add: parseInt_string_def isWhiteSpace1_def isWhiteSpace2_def isWhiteSpace3_def)
qed

lemma parseInt_no_break_space:
  "parseInt (JString [CHR 0xC2, CHR 0xA0, CHR ''4'', CHR ''2'']) = Num 42"
  by (simp add: parse_simps)

lemma parseInt_number_1e21:
  "toString (toNumber 1000000000000000000000) = ''1e+21'' \<and>
   parseInt (JNumber 1000000000000000000000) = Num 1"
proof -
  have b: "bitlen 1000000000000000000000 = 70" "bitlen 2000000000000000000000 = 71"
    by (simp_all add: bitlen.simps)
  have r: "roundNat 1000000000000000000000 = 1000000000000000000000"
    "roundNat 2000000000000000000000 = 2000000000000000000000"
    by (simp_all add: roundNat_def b Let_def)
  have n: "toNumber 1000000000000000000000 = Num 1000000000000000000000"
    by (simp add: toNumber_def r)
  have s: "string_of_nat 1000000000000000000000 = ''1000000000000000000000''"
    by (simp add: string_of_nat.simps)
  have c: "shortest 1000000000000000000000 (10 ^ (length (string_of_nat 1000000000000000000000) - Suc 0)) =
      1000000000000000000000"
  proof -
    have "(10::nat) ^ (length (string_of_nat 1000000000000000000000) - Suc 0) = 1000000000000000000000"
      by (simp add: s)
    moreover have "shortest 1000000000000000000000 1000000000000000000000 = 1000000000000000000000"
      by (subst shortest.simps) (simp add: r Let_def)
    ultimately show ?thesis by simp
  qed
  have z: "stripZeros (string_of_nat 1000000000000000000000) = ''1''"
    by (simp add: s stripZeros_def)
  have e: "string_of_nat (length (string_of_nat 1000000000000000000000) - Suc 0) = ''21''"
  proof -
    have "length (string_of_nat 1000000000000000000000) - Suc 0 = 21"
      by (simp add: s)
    then show ?thesis by (simp add: string_of_nat.simps)
  qed
  have t: "natToString 1000000000000000000000 = ''1e+21''"
    by (simp add: natToString_def c z e)
  have p: "parseInt_string ''1e+21'' = Num 1"
    by (simp add: parseInt_string_def isWhiteSpace1_def isWhiteSpace2_def isWhiteSpace3_def
          digitValue_def toNumber_def)
  from n t p show ?thesis by simp
qed

section \<open>The wait before the conditional overwrite\<close>

text \<open>
  C1 (as amended). When the read finds a record whose stored lease duration is a finite
  number or no number at all, the delay handed to the timer is the remaining lease time
  \<open>max 0 (D - (now - acquired))\<close> when the local clock is trusted and the stored
  acquisition time is a number, and \<open>D\<close> when the clock is not trusted, where \<open>D\<close> is the
  stored lease duration, or 10000 when the stored value is zero, missing or not a number.
  (With the clock trusted, the three numbers are taken to be at most \<open>2^51\<close> in magnitude,
  so that the subtractions are exact.) When that delay lies between 1 and \<open>2^31 - 1\<close>
  milliseconds, the conditional overwrite is attempted once the delay has passed, and not
  before.
\<close>

theorem C1_wait_interval_effective:
  assumes D: "D = (case parseInt (getProp item ''leaseDuration'') of
                     Num d \<Rightarrow> if d = 0 then 10000 else d
                   | _ \<Rightarrow> 10000)"
    and fin: "parseInt (getProp item ''leaseDuration'') \<noteq> Infinity"
      "parseInt (getProp item ''leaseDuration'') \<noteq> NegInfinity"
    and t: "trustLocalTime (fo_config fo) \<longrightarrow>
              parseInt (getProp item ''lockAcquiredTimeUnixMs'') = Num a \<and>
              \<bar>D\<bar> \<le> 2251799813685248 \<and> \<bar>a\<bar> \<le> 2251799813685248 \<and> \<bar>now\<bar> \<le> 2251799813685248"
    and W: "W = spec_waitInterval (trustLocalTime (fo_config fo)) D a now"
  shows "checkForExistingLock_reply fo dataBag now isoTime (GetItem (Some item)) =
           SetTimeout (Num W) dataBag item \<and>
         (1 \<le> W \<and> W \<le> 2147483647 \<longrightarrow>
            (\<forall>waited now' isoTime'.
               resume fo (SetTimeout (Num W) dataBag item) (TimerExpired waited now' isoTime') =
                 (if W \<le> waited then acquireExistingLock fo dataBag item now' isoTime'
                  else SetTimeout (Num W) dataBag item)))"
proof -
  have l: "leaseDurationMs item = Num D"
    using D fin by (cases "parseInt (getProp item ''leaseDuration'')") (simp_all add: leaseDurationMs_def)
  have "timeout (fo_config fo) item now = Num W"
  proof (cases "trustLocalTime (fo_config fo)")
    case False
    with l W show ?thesis by (simp add: timeout_def spec_waitInterval_def)
  next
    case True
    with t have a: "parseInt (getProp item ''lockAcquiredTimeUnixMs'') = Num a"
      and b: "\<bar>D\<bar> \<le> 2251799813685248" "\<bar>a\<bar> \<le> 2251799813685248" "\<bar>now\<bar> \<le> 2251799813685248"
      by simp_all
    from b have 1: "toNumber now = Num now" by (intro toNumber_exact) simp
    from b have 2: "toNumber (now - a) = Num (now - a)" by (intro toNumber_exact) simp
    from b have 3: "toNumber (D - (now - a)) = Num (D - (now - a))" by (intro toNumber_exact) simp
    from True l a 1 2 3 W show ?thesis
      by (simp add: timeout_def spec_waitInterval_def)
  qed
  then have "checkForExistingLock_reply fo dataBag now isoTime (GetItem (Some item)) =
           SetTimeout (Num W) dataBag item"
    by (simp add: checkForExistingLock_reply_def)
  moreover have "resume fo (SetTimeout (Num W) dataBag item) (TimerExpired waited now' isoTime') =
                 (if W \<le> waited then acquireExistingLock fo dataBag item now' isoTime'
                  else SetTimeout (Num W) dataBag item)"
    if "1 \<le> W" "W \<le> 2147483647" for waited now' isoTime'
    using that by (simp add: timerDelay_def)
  ultimately show ?thesis by blast
qed

theorem C1_wait_interval_effective_witness:
  "checkForExistingLock_reply (client cfg_trust) bag_A 5000 ''t''
     (GetItem (Some [''id'' \<mapsto> JString ''job'', ''leaseDuration'' \<mapsto> JString ''10000'',
                     ''recordVersionNumber'' \<mapsto> JString ''A'',
                     ''lockAcquiredTimeUnixMs'' \<mapsto> JNumber 1000])) =
   SetTimeout (Num 6000) bag_A
     [''id'' \<mapsto> JString ''job'', ''leaseDuration'' \<mapsto> JString ''10000'',
      ''recordVersionNumber'' \<mapsto> JString ''A'', ''lockAcquiredTimeUnixMs'' \<mapsto> JNumber 1000] \<and>
   resume (client cfg_trust)
     (SetTimeout (Num 6000) bag_A
        [''id'' \<mapsto> JString ''job'', ''leaseDuration'' \<mapsto> JString ''10000'',
         ''recordVersionNumber'' \<mapsto> JString ''A'', ''lockAcquiredTimeUnixMs'' \<mapsto> JNumber 1000])
     (TimerExpired 5999 10999 ''u'') =
   SetTimeout (Num 6000) bag_A
     [''id'' \<mapsto> JString ''job'', ''leaseDuration'' \<mapsto> JString ''10000'',
      ''recordVersionNumber'' \<mapsto> JString ''A'', ''lockAcquiredTimeUnixMs'' \<mapsto> JNumber 1000] \<and>
   resume (client cfg_trust)
     (SetTimeout (Num 6000) bag_A
        [''id'' \<mapsto> JString ''job'', ''leaseDuration'' \<mapsto> JString ''10000'',
         ''recordVersionNumber'' \<mapsto> JString ''A'', ''lockAcquiredTimeUnixMs'' \<mapsto> JNumber 1000])
     (TimerExpired 6000 11000 ''u'') =
   acquireExistingLock (client cfg_trust) bag_A
     [''id'' \<mapsto> JString ''job'', ''leaseDuration'' \<mapsto> JString ''10000'',
      ''recordVersionNumber'' \<mapsto> JString ''A'', ''lockAcquiredTimeUnixMs'' \<mapsto> JNumber 1000]
     11000 ''u''"
proof -
  let ?item = "[''id'' \<mapsto> JString ''job'', ''leaseDuration'' \<mapsto> JString ''10000'',
      ''recordVersionNumber'' \<mapsto> JString ''A'', ''lockAcquiredTimeUnixMs'' \<mapsto> JNumber 1000]"
  have p: "parseInt (getProp ?item ''leaseDuration'') = Num 10000"
    by (simp add: parse_simps)
  have q: "parseInt (getProp ?item ''lockAcquiredTimeUnixMs'') = Num 1000"
    by (simp add: parse_simps)
  have c: "trustLocalTime (fo_config (client cfg_trust))"
    by (simp add: client_def cfg_trust_def)
  have D: "(10000::int) = (case parseInt (getProp ?item ''leaseDuration'') of
                     Num d \<Rightarrow> if d = 0 then 10000 else d
                   | _ \<Rightarrow> 10000)"
    by (simp add: p)
  have fin: "parseInt (getProp ?item ''leaseDuration'') \<noteq> Infinity"
    "parseInt (getProp ?item ''leaseDuration'') \<noteq> NegInfinity"
    by (simp_all add: p)
  have t: "trustLocalTime (fo_config (client cfg_trust)) \<longrightarrow>
      parseInt (getProp ?item ''lockAcquiredTimeUnixMs'') = Num 1000 \<and>
      \<bar>10000::int\<bar> \<le> 2251799813685248 \<and> \<bar>1000::int\<bar> \<le> 2251799813685248 \<and>
      \<bar>5000::int\<bar> \<le> 2251799813685248"
    by (simp add: q)
  have W: "(6000::int) = spec_waitInterval (trustLocalTime (fo_config (client cfg_trust))) 10000 1000 5000"
    by (simp add: c spec_waitInterval_def)
  from C1_wait_interval_effective [OF D fin t W, of bag_A "''t''"] show ?thesis
    by simp
qed

text \<open>
  A record whose stored lease duration is 0, read with the local clock not trusted: the
  delay is 10000 ms, not the stored 0 ms, and after 9999 ms the overwrite has not been
  attempted.
\<close>

theorem C1_counterexample:
  "parseInt (getProp [''id'' \<mapsto> JString ''job'', ''leaseDuration'' \<mapsto> JString ''0'',
                      ''recordVersionNumber'' \<mapsto> JString ''A''] ''leaseDuration'') = Num 0 \<and>
   checkForExistingLock_reply (client cfg_plain) bag_A 5000 ''t''
     (GetItem (Some [''id'' \<mapsto> JString ''job'', ''leaseDuration'' \<mapsto> JString ''0'',
                     ''recordVersionNumber'' \<mapsto> JString ''A''])) =
   SetTimeout (Num 10000) bag_A
     [''id'' \<mapsto> JString ''job'', ''leaseDuration'' \<mapsto> JString ''0'',
      ''recordVersionNumber'' \<mapsto> JString ''A''] \<and>
   spec_waitInterval (trustLocalTime cfg_plain) 0 0 5000 = 0 \<and>
   timerDelay (Num 10000) = 10000 \<and>
   resume (client cfg_plain)
     (SetTimeout (Num 10000) bag_A
        [''id'' \<mapsto> JString ''job'', ''leaseDuration'' \<mapsto> JString ''0'',
         ''recordVersionNumber'' \<mapsto> JString ''A''])
     (TimerExpired 9999 14999 ''u'') =
   SetTimeout (Num 10000) bag_A
     [''id'' \<mapsto> JString ''job'', ''leaseDuration'' \<mapsto> JString ''0'',
      ''recordVersionNumber'' \<mapsto> JString ''A'']"
  by (simp add: parse_simps checkForExistingLock_reply_def timeout_def leaseDurationMs_def
        client_def cfg_plain_def spec_waitInterval_def timerDelay_def)

text \<open>
  Outside that range the timer does not wait for the delay it is handed. A lease of 30
  days, which this client writes as 2592000000 milliseconds, and a stored lease duration
  that is negative, are both replaced by 1 millisecond.
\<close>

lemma timerDelay_out_of_range:
  "getMsForLease (leaseOrDefault 30) ''days'' = Inr (Num 2592000000) \<and>
   timerDelay (Num 2592000000) = 1 \<and>
   timerDelay (Num (- 5000)) = 1 \<and>
   timerDelay NaN = 1"
  by (simp add: getMsForLease_def leaseOrDefault_def toNumber_def timerDelay_def)

section \<open>Retrying and giving up\<close>

text \<open>No delivery raises the retry budget of the pending action.\<close>

lemma resume_budget_le: "budget_le n a \<Longrightarrow> budget_le n (resume fo a d)"
  by (cases "(fo, a, d)" rule: resume.cases)
     (auto simp: checkForExistingLock_reply_def acquireNewLock_def acquireExistingLock_def
        tryAcquireLock_def tryAcquireLock_reply_def checkForExistingLock_def Let_def
        split: get_reply.splits option.splits sum.splits)

lemma drive_budget_le: "budget_le n a \<Longrightarrow> budget_le n (drive fo a ds)"
  by (induction ds arbitrary: a) (auto intro: resume_budget_le)

lemma acquireLock_budget: "budget_le (fo_retryCount fo) (acquireLock fo lid defaultOwner uuid)"
  by (simp add: acquireLock_def checkForExistingLock_def Let_def)

text \<open>
  What the continuation of the put does, by the \<^verbatim>\<open>code\<close> property of the error it
  receives. If that is \<^verbatim>\<open>ConditionalCheckFailedException\<close>: with a positive budget the
  budget is decremented and the protocol restarts with a strongly consistent read;
  otherwise the callback receives \<^verbatim>\<open>FailOpenError\<close> with the code
  \<^verbatim>\<open>FailedToAcquireLock\<close> wrapping the error. An error with any other \<^verbatim>\<open>code\<close>, or with
  none, is passed to the callback unchanged.
\<close>

lemma tryAcquireLock_reply_by_code:
  "(code e = Some ''ConditionalCheckFailedException'' \<and> a_retryCount dataBag > 0 \<longrightarrow>
      tryAcquireLock_reply fo dataBag (Some e) =
        checkForExistingLock fo (dataBag\<lparr> a_retryCount := a_retryCount dataBag - 1 \<rparr>) \<and>
      (\<exists>p. checkForExistingLock fo (dataBag\<lparr> a_retryCount := a_retryCount dataBag - 1 \<rparr>) =
             SendGet p (dataBag\<lparr> a_retryCount := a_retryCount dataBag - 1 \<rparr>) \<and>
           g_ConsistentRead p)) \<and>
   (code e = Some ''ConditionalCheckFailedException'' \<and> \<not> a_retryCount dataBag > 0 \<longrightarrow>
      tryAcquireLock_reply fo dataBag (Some e) =
        Callback (Some (FailOpenError ''Failed to acquire lock.'' ''FailedToAcquireLock'' e)) None) \<and>
   (code e \<noteq> Some ''ConditionalCheckFailedException'' \<longrightarrow>
      tryAcquireLock_reply fo dataBag (Some e) = Callback (Some e) None) \<and>
   (code e = Some ''ConditionalCheckFailedException'' \<and>
    new_FailOpen cfg = Inr fo \<and> retryCount cfg = Some 0 \<and>
    drive fo (acquireLock fo lid defaultOwner uuid) ds = SendPut params dataBag' \<longrightarrow>
      resume fo (drive fo (acquireLock fo lid defaultOwner uuid) ds) (PutReply (Some e)) =
        Callback (Some (FailOpenError ''Failed to acquire lock.'' ''FailedToAcquireLock'' e)) None)"
proof -
  have retry: "code e = Some ''ConditionalCheckFailedException'' \<Longrightarrow> a_retryCount dataBag > 0 \<Longrightarrow>
      tryAcquireLock_reply fo dataBag (Some e) =
        checkForExistingLock fo (dataBag\<lparr> a_retryCount := a_retryCount dataBag - 1 \<rparr>)"
    by (simp add: tryAcquireLock_reply_def)
  have fresh: "\<exists>p. checkForExistingLock fo (dataBag\<lparr> a_retryCount := a_retryCount dataBag - 1 \<rparr>) =
             SendGet p (dataBag\<lparr> a_retryCount := a_retryCount dataBag - 1 \<rparr>) \<and> g_ConsistentRead p"
    by (simp add: checkForExistingLock_def Let_def)
  have exhausted: "code e = Some ''ConditionalCheckFailedException'' \<Longrightarrow> \<not> a_retryCount b > 0 \<Longrightarrow>
      tryAcquireLock_reply fo b (Some e) =
        Callback (Some (FailOpenError ''Failed to acquire lock.'' ''FailedToAcquireLock'' e)) None" for b
    by (simp add: tryAcquireLock_reply_def)
  have other: "code e \<noteq> Some ''ConditionalCheckFailedException'' \<Longrightarrow>
      tryAcquireLock_reply fo dataBag (Some e) = Callback (Some e) None"
    by (simp add: tryAcquireLock_reply_def)
  have first: "resume fo (drive fo (acquireLock fo lid defaultOwner uuid) ds) (PutReply (Some e)) =
        Callback (Some (FailOpenError ''Failed to acquire lock.'' ''FailedToAcquireLock'' e)) None"
    if c: "code e = Some ''ConditionalCheckFailedException''"
      and n: "new_FailOpen cfg = Inr fo" and z: "retryCount cfg = Some 0"
      and d: "drive fo (acquireLock fo lid defaultOwner uuid) ds = SendPut params dataBag'"
  proof -
    from n z have "fo_retryCount fo = 0"
      by (auto simp: new_FailOpen_def split: if_splits)
    with acquireLock_budget [of fo lid defaultOwner uuid]
    have "budget_le 0 (acquireLock fo lid defaultOwner uuid)" by simp
    then have "budget_le 0 (drive fo (acquireLock fo lid defaultOwner uuid) ds)"
      by (rule drive_budget_le)
    with d have "\<not> a_retryCount dataBag' > 0" by simp
    with c have "tryAcquireLock_reply fo dataBag' (Some e) =
        Callback (Some (FailOpenError ''Failed to acquire lock.'' ''FailedToAcquireLock'' e)) None"
      by (rule exhausted)
    with d show ?thesis by simp
  qed
  from retry fresh exhausted other first show ?thesis by blast
qed

text \<open>
  C5, on the code. A client with one retry acquires the lock \<open>job\<close>; the read finds no
  record; the insert is rejected, and the storage client delivers the rejection with the
  name \<^verbatim>\<open>ConditionalCheckFailedException\<close> and no \<^verbatim>\<open>code\<close>. The callback receives that
  error as it is: the budget is not decremented, nothing is read again, and no
  \<^verbatim>\<open>FailOpenError\<close> is made.
\<close>

theorem C5_rejection_passed_through:
  "name conditionalCheckFailed = ''ConditionalCheckFailedException'' \<and>
   code conditionalCheckFailed = None \<and>
   new_FailOpen cfg_retry = Inr (client cfg_retry) \<and>
   fo_retryCount (client cfg_retry) = 1 \<and>
   drive (client cfg_retry)
     (acquireLock (client cfg_retry) (Scalar (JString ''job'')) ''pkg'' ''B'')
     [GetReply (GetItem None) 5000 ''t'', PutReply (Some conditionalCheckFailed)] =
   Callback (Some conditionalCheckFailed) None"
proof -
  have c: "fo_config (client cfg_retry) = cfg_retry" "fo_retryCount (client cfg_retry) = 1"
    "partitionKey cfg_retry = ''id''" "sortKey cfg_retry = None"
    "ownerName cfg_retry = ''worker-1''" "lockTable cfg_retry = ''locks''"
    "leaseDuration cfg_retry = 10" "leaseUnit cfg_retry = ''seconds''"
    by (simp_all add: client_def cfg_retry_def cfg_plain_def)
  have 1: "new_FailOpen cfg_retry = Inr (client cfg_retry)"
    by (simp add: new_FailOpen_def client_def c reservedFieldNames_def truthy_str_def)
  have 2: "drive (client cfg_retry)
     (acquireLock (client cfg_retry) (Scalar (JString ''job'')) ''pkg'' ''B'')
     [GetReply (GetItem None) 5000 ''t'', PutReply (Some conditionalCheckFailed)] =
   Callback (Some conditionalCheckFailed) None"
    by (simp add: acquireLock_def checkForExistingLock_def checkForExistingLock_reply_def
          acquireNewLock_def tryAcquireLock_def tryAcquireLock_reply_def getMsForLease_def
          leaseOrDefault_def toNumber_def c truthy_str_def conditionalCheckFailed_def)
  from 1 2 c(2) show ?thesis by (simp add: conditionalCheckFailed_def)
qed

section \<open>Invariants of the held lock\<close>

text \<open>
  Every state a lock reaches from its construction, whatever the events, is coherent, and
  has sent at most one delete.
\<close>

lemma coherent_new: "coherent (new_Lock ld thr)"
  by (simp add: coherent_def new_Lock_def armHeartbeat_def Let_def)

lemma coherent_release: "coherent w \<Longrightarrow> coherent (release cb w)"
  by (auto simp: coherent_def release_def Let_def split: option.splits)

lemma coherent_release_reply: "coherent w \<Longrightarrow> coherent (release_reply cb r w)"
  by (auto simp: coherent_def release_reply_def Let_def)

lemma coherent_refreshLock:
  "coherent w \<Longrightarrow> timers w = [] \<Longrightarrow> puts w = [] \<Longrightarrow> \<not> released (lock w) \<Longrightarrow>
   coherent (refreshLock g now t w)"
  by (auto simp: coherent_def refreshLock_def Let_def split: option.splits sum.splits)

lemma coherent_refreshLock_reply:
  "coherent w \<Longrightarrow> timers w = [] \<Longrightarrow> puts w = [] \<Longrightarrow> coherent (refreshLock_reply g r w)"
  by (auto simp: coherent_def refreshLock_reply_def release_def armHeartbeat_def Let_def
      split: option.splits)

lemma coherent_step: "coherent w \<Longrightarrow> coherent (step w ev)"
proof (cases ev)
  case (Release cb)
  then show "coherent w \<Longrightarrow> coherent (step w ev)" by (simp add: coherent_release)
next
  case (TimerFires h g now t)
  assume c: "coherent w"
  show "coherent (step w ev)"
  proof (cases "h \<in> set (timers w)")
    case True
    with c have "timers w = [h]" "puts w = []" "\<not> released (lock w)"
      by (auto simp: coherent_def)
    with c have "coherent (w\<lparr> timers := removeAll h (timers w) \<rparr>)"
      by (auto simp: coherent_def)
    then have "coherent (refreshLock g now t (w\<lparr> timers := removeAll h (timers w) \<rparr>))"
      using \<open>timers w = [h]\<close> \<open>puts w = []\<close> \<open>\<not> released (lock w)\<close>
      by (intro coherent_refreshLock) auto
    with True TimerFires show ?thesis by simp
  next
    case False
    with c TimerFires show ?thesis by simp
  qed
next
  case (PutReturns r)
  assume c: "coherent w"
  show "coherent (step w ev)"
  proof (cases "puts w")
    case Nil
    with c PutReturns show ?thesis by simp
  next
    case (Cons a rest)
    obtain p g where a: "a = (p, g)" by (cases a)
    from c Cons have "rest = []" "timers w = []"
      by (auto simp: coherent_def)
    with c have "coherent (w\<lparr> puts := rest \<rparr>)"
      by (auto simp: coherent_def)
    then have "coherent (refreshLock_reply g r (w\<lparr> puts := rest \<rparr>))"
      using \<open>rest = []\<close> \<open>timers w = []\<close> by (intro coherent_refreshLock_reply) auto
    with Cons a PutReturns show ?thesis by simp
  qed
next
  case (DeleteReturns r)
  assume c: "coherent w"
  then have "coherent (w\<lparr> deletes := ds \<rparr>)" for ds
    by (auto simp: coherent_def)
  with c DeleteReturns show "coherent (step w ev)"
    by (auto simp: coherent_release_reply split: list.splits)
qed

lemma coherent_run: "coherent w \<Longrightarrow> coherent (run w evs)"
  unfolding run_def by (induction evs arbitrary: w) (auto intro: coherent_step)

text \<open>
  Once no timer is armed and no renewal write is in flight, no event arms a timer or sends
  a renewal write again.
\<close>

lemma quiet_release:
  "quiet w \<Longrightarrow> quiet (release cb w) \<and> filter isRenewal (trace (release cb w)) = filter isRenewal (trace w)"
  by (auto simp: quiet_def release_def Let_def split: option.splits)

lemma quiet_step:
  "quiet w \<Longrightarrow> quiet (step w ev) \<and> filter isRenewal (trace (step w ev)) = filter isRenewal (trace w)"
proof (cases ev)
  case (Release cb)
  then show "quiet w \<Longrightarrow> ?thesis" by (simp add: quiet_release)
next
  case (TimerFires h g now t)
  then show "quiet w \<Longrightarrow> ?thesis" by (simp add: quiet_def)
next
  case (PutReturns r)
  then show "quiet w \<Longrightarrow> ?thesis" by (simp add: quiet_def)
next
  case (DeleteReturns r)
  then show "quiet w \<Longrightarrow> ?thesis"
    by (auto simp: quiet_def release_reply_def Let_def split: list.splits option.splits)
qed

lemma quiet_run:
  "quiet w \<Longrightarrow> quiet (run w evs) \<and> filter isRenewal (trace (run w evs)) = filter isRenewal (trace w)"
  unfolding run_def
proof (induction evs arbitrary: w)
  case Nil
  then show ?case by simp
next
  case (Cons ev evs)
  from quiet_step [OF Cons.prems, of ev] Cons.IH [of "step w ev"] show ?case by simp
qed

lemma deleted_once_new: "deleted_once (new_Lock ld thr)"
  by (simp add: deleted_once_def new_Lock_def armHeartbeat_def Let_def)

lemma deleted_once_release: "deleted_once w \<Longrightarrow> deleted_once (release cb w)"
  by (auto simp: deleted_once_def release_def Let_def split: option.splits)

lemma deleted_once_refreshLock_reply: "deleted_once w \<Longrightarrow> deleted_once (refreshLock_reply g r w)"
  by (auto simp: deleted_once_def refreshLock_reply_def release_def armHeartbeat_def Let_def
      split: option.splits)

lemma deleted_once_refreshLock: "deleted_once w \<Longrightarrow> deleted_once (refreshLock g now t w)"
  by (auto simp: deleted_once_def refreshLock_def Let_def split: option.splits sum.splits)

lemma deleted_once_step: "deleted_once w \<Longrightarrow> deleted_once (step w ev)"
proof (cases ev)
  case (Release cb)
  then show "deleted_once w \<Longrightarrow> ?thesis" by (simp add: deleted_once_release)
next
  case (TimerFires h g now t)
  assume d: "deleted_once w"
  then have "deleted_once (w\<lparr> timers := ts \<rparr>)" for ts by (simp add: deleted_once_def)
  with d TimerFires show ?thesis by (simp add: deleted_once_refreshLock)
next
  case (PutReturns r)
  assume d: "deleted_once w"
  then have "deleted_once (w\<lparr> puts := ps \<rparr>)" for ps by (simp add: deleted_once_def)
  with d PutReturns show ?thesis
    by (auto simp: deleted_once_refreshLock_reply split: list.splits)
next
  case (DeleteReturns r)
  then show "deleted_once w \<Longrightarrow> ?thesis"
    by (auto simp: deleted_once_def release_reply_def Let_def split: list.splits option.splits)
qed

lemma deleted_once_run: "deleted_once w \<Longrightarrow> deleted_once (run w evs)"
  unfolding run_def by (induction evs arbitrary: w) (auto intro: deleted_once_step)

section \<open>Release\<close>

lemma release_released: "released (lock w) \<Longrightarrow> release callback w = w"
  by (simp add: release_def)

lemma release_executes:
  "\<not> released (lock w) \<Longrightarrow> \<not> refreshing (lock w) \<Longrightarrow> send_throws w = None \<Longrightarrow>
   released (lock (release c w)) \<and>
   trace (release c w) = trace w @ [DeleteSent (release_params (lock (release c w)))] \<and>
   deletes (release c w) = deletes w @ [(release_params (lock (release c w)), c)]"
  by (auto simp: release_def release_params_def Let_def split: option.splits)

text \<open>
  C6 (as amended). Over the whole life of a lock, whatever the events, at most one delete
  is sent. A \<^verbatim>\<open>release\<close> call on a released lock changes nothing: no storage operation,
  and its callback is not invoked. Of two calls made with no renewal in flight, the second
  therefore has no effect, and when the delete returns the callback of the first call is
  invoked, once.
\<close>

theorem C6_release_twice:
  "length (filter isDeleteSent (trace (run (new_Lock ld thr) evs))) \<le> 1 \<and>
   (released (lock (run (new_Lock ld thr) evs)) \<longrightarrow>
      release c2 (run (new_Lock ld thr) evs) = run (new_Lock ld thr) evs) \<and>
   (\<not> released (lock (run (new_Lock ld thr) evs)) \<and>
    \<not> refreshing (lock (run (new_Lock ld thr) evs)) \<and>
    send_throws (run (new_Lock ld thr) evs) = None \<longrightarrow>
      run (run (new_Lock ld thr) evs) [Release c1, Release c2] =
        run (run (new_Lock ld thr) evs) [Release c1] \<and>
      filter isCalled (trace (run (run (new_Lock ld thr) evs) [Release c1, Release c2, DeleteReturns r])) =
        filter isCalled (trace (run (new_Lock ld thr) evs)) @ [Called c1 None])"
proof -
  define w where "w = run (new_Lock ld thr) evs"
  have d: "deleted_once w"
    unfolding w_def by (intro deleted_once_run deleted_once_new)
  then have once: "length (filter isDeleteSent (trace w)) \<le> 1"
    by (simp add: deleted_once_def)
  have noop: "released (lock w) \<Longrightarrow> release c2 w = w"
    by (rule release_released)
  have two: "run w [Release c1, Release c2] = run w [Release c1] \<and>
      filter isCalled (trace (run w [Release c1, Release c2, DeleteReturns r])) =
        filter isCalled (trace w) @ [Called c1 None]"
    if n: "\<not> released (lock w)" "\<not> refreshing (lock w)" "send_throws w = None"
  proof -
    from release_executes [OF n, of c1]
    have r: "released (lock (release c1 w))"
      and t: "trace (release c1 w) = trace w @ [DeleteSent (release_params (lock (release c1 w)))]"
      and q: "deletes (release c1 w) = deletes w @ [(release_params (lock (release c1 w)), c1)]"
      by blast+
    from d n have "deletes w = []" by (simp add: deleted_once_def)
    with q have q': "deletes (release c1 w) = [(release_params (lock (release c1 w)), c1)]" by simp
    from r have same: "release c2 (release c1 w) = release c1 w" by (rule release_released)
    then have "run w [Release c1, Release c2] = run w [Release c1]"
      by (simp add: run_def)
    moreover have "filter isCalled (trace (run w [Release c1, Release c2, DeleteReturns r])) =
        filter isCalled (trace w) @ [Called c1 None]"
      using same q' t by (simp add: run_def release_reply_def Let_def split: option.splits)
    ultimately show ?thesis by blast
  qed
  from once noop two show ?thesis unfolding w_def by blast
qed

theorem C6_release_twice_witness:
  "length (filter isDeleteSent (trace (run (new_Lock ld_A None) [Release 1]))) \<le> 1 \<and>
   release 2 (run (new_Lock ld_A None) [Release 1]) = run (new_Lock ld_A None) [Release 1] \<and>
   run (run (new_Lock ld_A None) []) [Release 1, Release 2] = run (run (new_Lock ld_A None) []) [Release 1] \<and>
   filter isCalled (trace (run (run (new_Lock ld_A None) []) [Release 1, Release 2, DeleteReturns None])) =
     filter isCalled (trace (run (new_Lock ld_A None) [])) @ [Called 1 None]"
proof -
  have a: "released (lock (run (new_Lock ld_A None) [Release 1]))"
    by (simp add: run_def new_Lock_def armHeartbeat_def release_def ld_A_def truthy_num_def Let_def)
  have b: "\<not> released (lock (run (new_Lock ld_A None) [])) \<and>
    \<not> refreshing (lock (run (new_Lock ld_A None) [])) \<and>
    send_throws (run (new_Lock ld_A None) []) = None"
    by (simp add: run_def new_Lock_def armHeartbeat_def ld_A_def truthy_num_def Let_def)
  from C6_release_twice [of ld_A None "[Release 1]" 2] a
  have 1: "length (filter isDeleteSent (trace (run (new_Lock ld_A None) [Release 1]))) \<le> 1"
    and 2: "release 2 (run (new_Lock ld_A None) [Release 1]) = run (new_Lock ld_A None) [Release 1]"
    by blast+
  from C6_release_twice [of ld_A None "[]" 2 1 None] b
  have 3: "run (run (new_Lock ld_A None) []) [Release 1, Release 2] = run (run (new_Lock ld_A None) []) [Release 1]"
    and 4: "filter isCalled (trace (run (run (new_Lock ld_A None) []) [Release 1, Release 2, DeleteReturns None])) =
     filter isCalled (trace (run (new_Lock ld_A None) [])) @ [Called 1 None]"
    by blast+
  from 1 2 3 4 show ?thesis by blast
qed

text \<open>
  Two calls of \<^verbatim>\<open>release\<close>, with callbacks 1 and 2, and the delete returning: callback 1
  is invoked once, callback 2 never, and nothing is left pending that could invoke it.
\<close>

theorem C6_counterexample:
  "filter isCalled (trace (run (new_Lock ld_A None) [Release 1, Release 2, DeleteReturns None, DeleteReturns None])) =
     [Called 1 None] \<and>
   deletes (run (new_Lock ld_A None) [Release 1, Release 2, DeleteReturns None, DeleteReturns None]) = [] \<and>
   refreshCallback (lock (run (new_Lock ld_A None) [Release 1, Release 2, DeleteReturns None, DeleteReturns None])) = None"
  by (simp add: run_def new_Lock_def armHeartbeat_def release_def release_reply_def ld_A_def
        truthy_num_def Let_def)

section \<open>The outcome of the delete\<close>

text \<open>
  C7 (as amended). Whatever the delete returns, success or any error, its continuation
  invokes the callback of the release with no error, as the last thing it does, and apart
  from a warning that is all it outputs: the failure is never surfaced. An error that is
  not a conditional-check failure (neither by \<^verbatim>\<open>name\<close> nor by \<^verbatim>\<open>code\<close>) is not logged at
  all. An exception thrown synchronously while the delete is being sent is caught and
  logged as a warning, no delete is in flight, and the callback is invoked with no error.
\<close>

theorem C7_release_always_succeeds:
  "(deletes w = (params, callback) # rest \<longrightarrow>
      filter (\<lambda>x. \<not> isWarned x) (trace (step w (DeleteReturns r))) =
        filter (\<lambda>x. \<not> isWarned x) (trace w) @ [Called callback None] \<and>
      last (trace (step w (DeleteReturns r))) = Called callback None \<and>
      ((\<forall>e. r = Some e \<longrightarrow>
          name e \<noteq> ''ConditionalCheckFailedException'' \<and>
          code e \<noteq> Some ''ConditionalCheckFailedException'') \<longrightarrow>
       trace (step w (DeleteReturns r)) = trace w @ [Called callback None])) \<and>
   (\<not> released (lock w) \<and> \<not> refreshing (lock w) \<and> send_throws w = Some e' \<longrightarrow>
      trace (release callback w) = trace w @ [Warned (ReleaseThrew e'), Called callback None] \<and>
      deletes (release callback w) = deletes w)"
  by (auto simp: release_reply_def release_def Let_def split: option.splits)

theorem C7_release_always_succeeds_witness:
  "trace (step (run (new_Lock ld_A None) [Release 1])
            (DeleteReturns (Some (StorageError ''ProvisionedThroughputExceededException'' None ''slow down'')))) =
     trace (run (new_Lock ld_A None) [Release 1]) @ [Called 1 None] \<and>
   last (trace (step (run (new_Lock ld_A None) [Release 1]) (DeleteReturns None))) = Called 1 None \<and>
   trace (release 1 (new_Lock ld_A (Some (Error ''client destroyed'')))) =
     trace (new_Lock ld_A (Some (Error ''client destroyed''))) @
     [Warned (ReleaseThrew (Error ''client destroyed'')), Called 1 None] \<and>
   deletes (release 1 (new_Lock ld_A (Some (Error ''client destroyed'')))) =
     deletes (new_Lock ld_A (Some (Error ''client destroyed'')))"
proof -
  have a: "deletes (run (new_Lock ld_A None) [Release 1]) =
      (release_params (lock (run (new_Lock ld_A None) [Release 1])), 1) # []"
    by (simp add: run_def new_Lock_def armHeartbeat_def release_def ld_A_def truthy_num_def Let_def)
  have b: "\<not> released (lock (new_Lock ld_A (Some (Error ''client destroyed'')))) \<and>
      \<not> refreshing (lock (new_Lock ld_A (Some (Error ''client destroyed'')))) \<and>
      send_throws (new_Lock ld_A (Some (Error ''client destroyed''))) = Some (Error ''client destroyed'')"
    by (simp add: new_Lock_def armHeartbeat_def ld_A_def truthy_num_def Let_def)
  have c: "\<forall>e. Some (StorageError ''ProvisionedThroughputExceededException'' None ''slow down'') = Some e \<longrightarrow>
          name e \<noteq> ''ConditionalCheckFailedException'' \<and>
          code e \<noteq> Some ''ConditionalCheckFailedException''"
    by simp
  from C7_release_always_succeeds [of "run (new_Lock ld_A None) [Release 1]"
      "release_params (lock (run (new_Lock ld_A None) [Release 1]))" 1 "[]"
      "Some (StorageError ''ProvisionedThroughputExceededException'' None ''slow down'')"] a c
  have 1: "trace (step (run (new_Lock ld_A None) [Release 1])
            (DeleteReturns (Some (StorageError ''ProvisionedThroughputExceededException'' None ''slow down'')))) =
     trace (run (new_Lock ld_A None) [Release 1]) @ [Called 1 None]"
    by blast
  from C7_release_always_succeeds [of "run (new_Lock ld_A None) [Release 1]"
      "release_params (lock (run (new_Lock ld_A None) [Release 1]))" 1 "[]" None] a
  have 2: "last (trace (step (run (new_Lock ld_A None) [Release 1]) (DeleteReturns None))) = Called 1 None"
    by blast
  from C7_release_always_succeeds [of "new_Lock ld_A (Some (Error ''client destroyed''))" _ 1 _ _
      "Error ''client destroyed''"] b
  have 3: "trace (release 1 (new_Lock ld_A (Some (Error ''client destroyed'')))) =
     trace (new_Lock ld_A (Some (Error ''client destroyed''))) @
     [Warned (ReleaseThrew (Error ''client destroyed'')), Called 1 None] \<and>
   deletes (release 1 (new_Lock ld_A (Some (Error ''client destroyed'')))) =
     deletes (new_Lock ld_A (Some (Error ''client destroyed'')))"
    by blast
  from 1 2 3 show ?thesis by blast
qed

text \<open>
  A delete that fails with an error other than the conditional check: the callback is
  invoked with no error, and nothing is logged.
\<close>

theorem C7_counterexample:
  "filter isWarned (trace (run (new_Lock ld_A None)
      [Release 1, DeleteReturns (Some (StorageError ''AccessDeniedException'' None ''not authorized''))])) = [] \<and>
   filter isCalled (trace (run (new_Lock ld_A None)
      [Release 1, DeleteReturns (Some (StorageError ''AccessDeniedException'' None ''not authorized''))])) =
     [Called 1 None]"
  by (simp add: run_def new_Lock_def armHeartbeat_def release_def release_reply_def ld_A_def
        truthy_num_def Let_def)

section \<open>Renewal\<close>

text \<open>The continuation of a renewal write that failed, on a lock with nothing else pending.\<close>

lemma refreshLock_reply_failed:
  "\<not> released (lock w) \<Longrightarrow> timers w = [] \<Longrightarrow> puts w = [] \<Longrightarrow>
   filter isEmitted (trace (refreshLock_reply g (Some e) w)) = filter isEmitted (trace w) @ [Emitted e] \<and>
   last (trace (refreshLock_reply g (Some e) w)) = Emitted e \<and>
   l_recordVersionNumber (lock (refreshLock_reply g (Some e) w)) = l_recordVersionNumber (lock w) \<and>
   filter isRenewal (trace (refreshLock_reply g (Some e) w)) = filter isRenewal (trace w) \<and>
   quiet (refreshLock_reply g (Some e) w) \<and>
   released (lock (refreshLock_reply g (Some e) w)) = (refreshCallback (lock w) \<noteq> None)"
  by (auto simp: refreshLock_reply_def release_def quiet_def Let_def split: option.splits)

text \<open>
  C8. In any state a lock reaches, when the renewal write in flight returns an error: the
  error is emitted, and it is the last thing the continuation does; the lock keeps its
  fencing token; no timer is armed and no write is in flight afterwards, and whatever
  events follow, no renewal write is sent and no renewal is scheduled again. The lock is
  released by this continuation exactly when the caller's release had been deferred to
  it: with none deferred, the lock stays unreleased.
\<close>

theorem C8_renewal_failure:
  "puts (run (new_Lock ld thr) evs) = (params, newGuid) # rest \<longrightarrow>
     filter isEmitted (trace (step (run (new_Lock ld thr) evs) (PutReturns (Some e)))) =
       filter isEmitted (trace (run (new_Lock ld thr) evs)) @ [Emitted e] \<and>
     last (trace (step (run (new_Lock ld thr) evs) (PutReturns (Some e)))) = Emitted e \<and>
     l_recordVersionNumber (lock (step (run (new_Lock ld thr) evs) (PutReturns (Some e)))) =
       l_recordVersionNumber (lock (run (new_Lock ld thr) evs)) \<and>
     timers (step (run (new_Lock ld thr) evs) (PutReturns (Some e))) = [] \<and>
     puts (step (run (new_Lock ld thr) evs) (PutReturns (Some e))) = [] \<and>
     (\<forall>evs'. filter isRenewal (trace (run (step (run (new_Lock ld thr) evs) (PutReturns (Some e))) evs')) =
             filter isRenewal (trace (run (new_Lock ld thr) evs))) \<and>
     released (lock (step (run (new_Lock ld thr) evs) (PutReturns (Some e)))) =
       (refreshCallback (lock (run (new_Lock ld thr) evs)) \<noteq> None)"
proof
  define w where "w = run (new_Lock ld thr) evs"
  assume "puts (run (new_Lock ld thr) evs) = (params, newGuid) # rest"
  then have p: "puts w = (params, newGuid) # rest" by (simp add: w_def)
  have c: "coherent w"
    unfolding w_def by (intro coherent_run coherent_new)
  with p have r: "rest = []" and t: "timers w = []" and n: "\<not> released (lock w)"
    by (auto simp: coherent_def)
  define w0 where "w0 = w\<lparr> puts := rest \<rparr>"
  have s: "step w (PutReturns (Some e)) = refreshLock_reply newGuid (Some e) w0"
    using p by (simp add: w0_def)
  have "\<not> released (lock w0)" "timers w0 = []" "puts w0 = []"
    using r t n by (simp_all add: w0_def)
  from refreshLock_reply_failed [OF this, of newGuid e]
  have f: "filter isEmitted (trace (step w (PutReturns (Some e)))) = filter isEmitted (trace w) @ [Emitted e]"
    and l: "last (trace (step w (PutReturns (Some e)))) = Emitted e"
    and v: "l_recordVersionNumber (lock (step w (PutReturns (Some e)))) = l_recordVersionNumber (lock w)"
    and k: "filter isRenewal (trace (step w (PutReturns (Some e)))) = filter isRenewal (trace w)"
    and q: "quiet (step w (PutReturns (Some e)))"
    and d: "released (lock (step w (PutReturns (Some e)))) = (refreshCallback (lock w) \<noteq> None)"
    unfolding s by (simp_all add: w0_def)
  from quiet_run [OF q] k
  have "\<forall>evs'. filter isRenewal (trace (run (step w (PutReturns (Some e))) evs')) = filter isRenewal (trace w)"
    by simp
  with f l v q d
  show "filter isEmitted (trace (step (run (new_Lock ld thr) evs) (PutReturns (Some e)))) =
       filter isEmitted (trace (run (new_Lock ld thr) evs)) @ [Emitted e] \<and>
     last (trace (step (run (new_Lock ld thr) evs) (PutReturns (Some e)))) = Emitted e \<and>
     l_recordVersionNumber (lock (step (run (new_Lock ld thr) evs) (PutReturns (Some e)))) =
       l_recordVersionNumber (lock (run (new_Lock ld thr) evs)) \<and>
     timers (step (run (new_Lock ld thr) evs) (PutReturns (Some e))) = [] \<and>
     puts (step (run (new_Lock ld thr) evs) (PutReturns (Some e))) = [] \<and>
     (\<forall>evs'. filter isRenewal (trace (run (step (run (new_Lock ld thr) evs) (PutReturns (Some e))) evs')) =
             filter isRenewal (trace (run (new_Lock ld thr) evs))) \<and>
     released (lock (step (run (new_Lock ld thr) evs) (PutReturns (Some e)))) =
       (refreshCallback (lock (run (new_Lock ld thr) evs)) \<noteq> None)"
    unfolding w_def [symmetric] by (simp add: quiet_def)
qed


theorem C8_renewal_failure_witness:
  "last (trace (step (run (new_Lock ld_A None) [TimerFires 0 ''B'' 5000 ''t''])
                  (PutReturns (Some conditionalCheckFailed)))) = Emitted conditionalCheckFailed \<and>
   l_recordVersionNumber (lock (step (run (new_Lock ld_A None) [TimerFires 0 ''B'' 5000 ''t''])
                  (PutReturns (Some conditionalCheckFailed)))) = ''A'' \<and>
   timers (step (run (new_Lock ld_A None) [TimerFires 0 ''B'' 5000 ''t''])
             (PutReturns (Some conditionalCheckFailed))) = [] \<and>
   puts (step (run (new_Lock ld_A None) [TimerFires 0 ''B'' 5000 ''t''])
           (PutReturns (Some conditionalCheckFailed))) = [] \<and>
   \<not> released (lock (step (run (new_Lock ld_A None) [TimerFires 0 ''B'' 5000 ''t''])
                  (PutReturns (Some conditionalCheckFailed))))"
proof -
  obtain params where p:
    "puts (run (new_Lock ld_A None) [TimerFires 0 ''B'' 5000 ''t'']) = (params, ''B'') # []"
    by (simp add: run_def new_Lock_def armHeartbeat_def refreshLock_def getMsForLease_def leaseOrDefault_def toNumber_def
          ld_A_def truthy_num_def Let_def)
  have v: "l_recordVersionNumber (lock (run (new_Lock ld_A None) [TimerFires 0 ''B'' 5000 ''t''])) = ''A''"
    and c: "refreshCallback (lock (run (new_Lock ld_A None) [TimerFires 0 ''B'' 5000 ''t''])) = None"
    by (simp_all add: run_def new_Lock_def armHeartbeat_def refreshLock_def getMsForLease_def leaseOrDefault_def toNumber_def
          ld_A_def truthy_num_def Let_def)
  from C8_renewal_failure [of ld_A None "[TimerFires 0 ''B'' 5000 ''t'']" params "''B''" "[]"
      conditionalCheckFailed] p v c
  show ?thesis by simp
qed

section \<open>Release during a renewal\<close>

lemma release_params_cong:
  "config l' = config l \<Longrightarrow> l_recordVersionNumber l' = l_recordVersionNumber l \<Longrightarrow>
   release_params l' = release_params l"
  by (simp add: release_params_def)

lemma release_deferred:
  "\<not> released (lock w) \<Longrightarrow> refreshing (lock w) \<Longrightarrow>
   release c w = w\<lparr> lock := (lock w)\<lparr> refreshCallback := Some c \<rparr> \<rparr>"
  by (simp add: release_def)

text \<open>
  The continuation of a renewal write, on a lock with a release deferred and nothing else
  pending: the release runs first, with the fencing token the lock has at that moment.
\<close>

lemma refreshLock_reply_deferred:
  assumes "\<not> released (lock w)" "timers w = []" "puts w = []" "send_throws w = None"
    "refreshCallback (lock w) = Some c"
  shows "released (lock (refreshLock_reply g r w))"
    "refreshCallback (lock (refreshLock_reply g r w)) = None"
    "deletes (refreshLock_reply g r w) = deletes w @ [(release_params (lock w), c)]"
    "filter isDeleteSent (trace (refreshLock_reply g r w)) =
       filter isDeleteSent (trace w) @ [DeleteSent (release_params (lock w))]"
    "filter isRenewal (trace (refreshLock_reply g r w)) = filter isRenewal (trace w)"
    "quiet (refreshLock_reply g r w)"
    "l_recordVersionNumber (lock (refreshLock_reply g r w)) =
       (case r of None \<Rightarrow> g | Some e \<Rightarrow> l_recordVersionNumber (lock w))"
  using assms
  by (auto simp: refreshLock_reply_def release_def quiet_def Let_def
        intro!: release_params_cong split: option.splits)


text \<open>
  C4. In any state a lock reaches with a renewal write in flight, a call of
  \<^verbatim>\<open>release\<close> only stores its callback in \<open>refreshCallback\<close>: nothing is output and no
  delete is in flight. When the write then returns, with success or with an error, the
  lock is released, the one delete is sent with the deferred callback as its continuation,
  no renewal has been scheduled or sent in between, no timer is armed and no write is in
  flight, and whatever events follow, no renewal is scheduled or sent again.
\<close>

theorem C4_deferred_release:
  assumes w: "w = run (new_Lock ld thr) evs"
    and p: "puts w = (params, newGuid) # rest"
  shows "release c w = w\<lparr> lock := (lock w)\<lparr> refreshCallback := Some c \<rparr> \<rparr> \<and>
     trace (release c w) = trace w \<and>
     deletes (release c w) = [] \<and>
     released (lock (run w [Release c, PutReturns r])) \<and>
     deletes (run w [Release c, PutReturns r]) = [(release_params (lock w), c)] \<and>
     filter isDeleteSent (trace (run w [Release c, PutReturns r])) =
       [DeleteSent (release_params (lock w))] \<and>
     filter isRenewal (trace (run w [Release c, PutReturns r])) = filter isRenewal (trace w) \<and>
     timers (run w [Release c, PutReturns r]) = [] \<and>
     puts (run w [Release c, PutReturns r]) = [] \<and>
     (\<forall>evs'. filter isRenewal (trace (run (run w [Release c, PutReturns r]) evs')) =
             filter isRenewal (trace w))"
proof -
  have "coherent w"
    unfolding w by (intro coherent_run coherent_new)
  with p have r: "rest = []" and t: "timers w = []" and f: "refreshing (lock w)"
    and n: "\<not> released (lock w)" and s: "send_throws w = None"
    by (auto simp: coherent_def)
  have "deleted_once w"
    unfolding w by (intro deleted_once_run deleted_once_new)
  with n have d: "deletes w = []" and ds: "filter isDeleteSent (trace w) = []"
    by (simp_all add: deleted_once_def)
  have def: "release c w = w\<lparr> lock := (lock w)\<lparr> refreshCallback := Some c \<rparr> \<rparr>"
    using n f by (rule release_deferred)
  define w0 where "w0 = w\<lparr> lock := (lock w)\<lparr> refreshCallback := Some c \<rparr>, puts := [] \<rparr>"
  have run2: "run w [Release c, PutReturns r] = refreshLock_reply newGuid r w0"
    using p r by (simp add: run_def def w0_def)
  have w0: "\<not> released (lock w0)" "timers w0 = []" "puts w0 = []" "send_throws w0 = None"
    "refreshCallback (lock w0) = Some c"
    using n t s by (simp_all add: w0_def)
  have rp: "release_params (lock w0) = release_params (lock w)"
    by (rule release_params_cong) (simp_all add: w0_def)
  have tr: "trace w0 = trace w" and dl: "deletes w0 = []"
    using d by (simp_all add: w0_def)
  note k = refreshLock_reply_deferred [OF w0, of newGuid r]
  have a: "released (lock (run w [Release c, PutReturns r]))"
    unfolding run2 by (rule k(1))
  have b: "deletes (run w [Release c, PutReturns r]) = [(release_params (lock w), c)]"
    unfolding run2 using k(3) rp dl by simp
  have e: "filter isDeleteSent (trace (run w [Release c, PutReturns r])) =
       [DeleteSent (release_params (lock w))]"
    unfolding run2 using k(4) rp tr ds by simp
  have g: "filter isRenewal (trace (run w [Release c, PutReturns r])) = filter isRenewal (trace w)"
    unfolding run2 using k(5) tr by simp
  have q: "quiet (run w [Release c, PutReturns r])"
    unfolding run2 by (rule k(6))
  from quiet_run [OF q] g
  have h: "\<forall>evs'. filter isRenewal (trace (run (run w [Release c, PutReturns r]) evs')) =
             filter isRenewal (trace w)"
    by simp
  from def d have i: "trace (release c w) = trace w" "deletes (release c w) = []"
    by simp_all
  from q have j: "timers (run w [Release c, PutReturns r]) = []" "puts (run w [Release c, PutReturns r]) = []"
    by (simp_all add: quiet_def)
  from def i a b e g j h show ?thesis by blast
qed


theorem C4_deferred_release_witness:
  "trace (release 7 (run (new_Lock ld_A None) [TimerFires 0 ''B'' 5000 ''t''])) =
     trace (run (new_Lock ld_A None) [TimerFires 0 ''B'' 5000 ''t'']) \<and>
   deletes (release 7 (run (new_Lock ld_A None) [TimerFires 0 ''B'' 5000 ''t''])) = [] \<and>
   released (lock (run (run (new_Lock ld_A None) [TimerFires 0 ''B'' 5000 ''t''])
                     [Release 7, PutReturns None])) \<and>
   deletes (run (run (new_Lock ld_A None) [TimerFires 0 ''B'' 5000 ''t'']) [Release 7, PutReturns None]) =
     [(release_params (lock (run (new_Lock ld_A None) [TimerFires 0 ''B'' 5000 ''t''])), 7)] \<and>
   timers (run (run (new_Lock ld_A None) [TimerFires 0 ''B'' 5000 ''t'']) [Release 7, PutReturns None]) = [] \<and>
   puts (run (run (new_Lock ld_A None) [TimerFires 0 ''B'' 5000 ''t'']) [Release 7, PutReturns None]) = []"
proof -
  obtain params where p:
    "puts (run (new_Lock ld_A None) [TimerFires 0 ''B'' 5000 ''t'']) = (params, ''B'') # []"
    by (simp add: run_def new_Lock_def armHeartbeat_def refreshLock_def getMsForLease_def leaseOrDefault_def toNumber_def
          ld_A_def truthy_num_def Let_def)
  from C4_deferred_release [OF refl p, of 7 None] show ?thesis by blast
qed

section \<open>The token of the deferred delete\<close>

text \<open>
  In any state a lock reaches with a renewal write in flight and a release deferred: when
  the write succeeds, the delete that is sent compares the stored token with the token the
  lock had before the renewal, and the lock then takes the new token.
\<close>

lemma deferred_release_token:
  assumes w: "w = run (new_Lock ld thr) evs"
    and p: "puts w = (params, newGuid) # rest"
    and c: "refreshCallback (lock w) = Some c"
  shows "deletes (step w (PutReturns None)) = [(release_params (lock w), c)] \<and>
     d_ExpressionAttributeValues (release_params (lock w)) '':recordVersionNumber'' =
       Some (JString (l_recordVersionNumber (lock w))) \<and>
     l_recordVersionNumber (lock (step w (PutReturns None))) = newGuid"
proof -
  have "coherent w"
    unfolding w by (intro coherent_run coherent_new)
  with p have r: "rest = []" and t: "timers w = []"
    and n: "\<not> released (lock w)" and s: "send_throws w = None"
    by (auto simp: coherent_def)
  have "deleted_once w"
    unfolding w by (intro deleted_once_run deleted_once_new)
  with n have d: "deletes w = []"
    by (simp add: deleted_once_def)
  define w0 where "w0 = w\<lparr> puts := [] \<rparr>"
  have st: "step w (PutReturns None) = refreshLock_reply newGuid None w0"
    using p r by (simp add: w0_def)
  have w0: "\<not> released (lock w0)" "timers w0 = []" "puts w0 = []" "send_throws w0 = None"
    "refreshCallback (lock w0) = Some c"
    using n t s c by (simp_all add: w0_def)
  note k = refreshLock_reply_deferred [OF w0, of newGuid None]
  have "deletes (step w (PutReturns None)) = [(release_params (lock w), c)]"
    unfolding st using k(3) d by (simp add: w0_def)
  moreover have "l_recordVersionNumber (lock (step w (PutReturns None))) = newGuid"
    unfolding st using k(7) by simp
  moreover have "d_ExpressionAttributeValues (release_params (lock w)) '':recordVersionNumber'' =
       Some (JString (l_recordVersionNumber (lock w)))"
    by (simp add: release_params_def Let_def)
  ultimately show ?thesis by blast
qed

text \<open>
  C3, on the code. A lock holding token \<open>A\<close>: the heartbeat timer fires and the renewal
  write carries the new token \<open>B\<close>; \<^verbatim>\<open>release\<close> is called while the write is in flight;
  the write succeeds. The delete then in flight compares the stored token with \<open>A\<close>, and
  the lock's current token is \<open>B\<close>.
\<close>

theorem C3_deferred_delete_token:
  "map (\<lambda>(p, g). p_Item p ''recordVersionNumber'')
     (puts (run (new_Lock ld_A None) [TimerFires 0 ''B'' 5000 ''t'', Release 7])) =
     [Some (JString ''B'')] \<and>
   map (\<lambda>(p, c). (d_ExpressionAttributeValues p '':recordVersionNumber'', c))
     (deletes (run (new_Lock ld_A None) [TimerFires 0 ''B'' 5000 ''t'', Release 7, PutReturns None])) =
     [(Some (JString ''A''), 7)] \<and>
   l_recordVersionNumber
     (lock (run (new_Lock ld_A None) [TimerFires 0 ''B'' 5000 ''t'', Release 7, PutReturns None])) = ''B''"
  by (simp add: run_def new_Lock_def armHeartbeat_def refreshLock_def refreshLock_reply_def
        refreshLock_params_def release_def release_params_def getMsForLease_def leaseOrDefault_def toNumber_def
        ld_A_def truthy_num_def truthy_str_def Let_def)

section \<open>The preconditions of the conditional writes\<close>

lemma render_recordAbsent:
  "buildAttributeNotExistsExpression sk = render (spec_recordAbsent sk)"
  by (simp add: buildAttributeNotExistsExpression_def spec_recordAbsent_def)

lemma holds_recordAbsent:
  assumes "\<forall>it. stored = Some it \<longrightarrow> it pk \<noteq> None"
  shows "holds (buildExpressionAttributeNames pk sk) vals stored (spec_recordAbsent sk) = (stored = None)"
  using assms
  by (auto simp: buildExpressionAttributeNames_def spec_recordAbsent_def split: option.splits)

lemma holds_tokenEquals:
  "holds names ['':recordVersionNumber'' \<mapsto> v] stored
     (Paren (Equals ''recordVersionNumber'' '':recordVersionNumber'')) =
   (\<exists>it. stored = Some it \<and> it ''recordVersionNumber'' = Some v)"
  by (auto split: option.splits)

text \<open>
  C2. When the read finds no record, the condition of the put that follows is the text of
  "the record does not exist" (with a configured sort key: the partition key attribute does
  not exist and the sort key attribute does not exist), and with the names sent along it
  holds exactly when no item is stored under the key. When the read finds a record, the
  condition of the put sent after the wait is the text of "the record does not exist, or
  its \<^verbatim>\<open>recordVersionNumber\<close> equals \<^verbatim>\<open>:recordVersionNumber\<close>", the value sent for
  \<^verbatim>\<open>:recordVersionNumber\<close> is the \<^verbatim>\<open>recordVersionNumber\<close> of the item that was read, and
  the condition holds exactly when no item is stored or the stored item carries that
  token. (An item stored under a key carries its partition key attribute.)
\<close>

theorem C2_preconditions:
  assumes n: "checkForExistingLock_reply fo dataBag now isoTime (GetItem None) = SendPut pn bn"
    and e: "resume fo (checkForExistingLock_reply fo dataBag now isoTime (GetItem (Some item)))
              (TimerExpired waited now' isoTime') = SendPut pe be"
    and k: "\<forall>it. stored = Some it \<longrightarrow> it (partitionKey (fo_config fo)) \<noteq> None"
  shows "p_ConditionExpression pn = render (spec_recordAbsent (sortKey (fo_config fo))) \<and>
     holds (p_ExpressionAttributeNames pn) (p_ExpressionAttributeValues pn) stored
       (spec_recordAbsent (sortKey (fo_config fo))) = (stored = None) \<and>
     p_ConditionExpression pe = render (spec_absentOrTokenEquals (sortKey (fo_config fo))) \<and>
     p_ExpressionAttributeValues pe '':recordVersionNumber'' = Some (getProp item ''recordVersionNumber'') \<and>
     holds (p_ExpressionAttributeNames pe) (p_ExpressionAttributeValues pe) stored
       (spec_absentOrTokenEquals (sortKey (fo_config fo))) =
       (stored = None \<or>
        (\<exists>it. stored = Some it \<and> it ''recordVersionNumber'' = Some (getProp item ''recordVersionNumber'')))"
proof -
  let ?cfg = "fo_config fo"
  from n have pn: "p_ConditionExpression pn = buildAttributeNotExistsExpression (sortKey ?cfg)"
    "p_ExpressionAttributeNames pn = buildExpressionAttributeNames (partitionKey ?cfg) (sortKey ?cfg)"
    by (auto simp: checkForExistingLock_reply_def acquireNewLock_def tryAcquireLock_def Let_def
          split: sum.splits)
  from e have pe: "p_ConditionExpression pe =
      buildAttributeNotExistsExpression (sortKey ?cfg) @ '' or (recordVersionNumber = :recordVersionNumber)''"
    "p_ExpressionAttributeNames pe = buildExpressionAttributeNames (partitionKey ?cfg) (sortKey ?cfg)"
    "p_ExpressionAttributeValues pe = ['':recordVersionNumber'' \<mapsto> getProp item ''recordVersionNumber'']"
    by (auto simp: checkForExistingLock_reply_def acquireExistingLock_def tryAcquireLock_def Let_def
          split: sum.splits if_splits)
  have 1: "p_ConditionExpression pn = render (spec_recordAbsent (sortKey ?cfg))"
    using pn(1) by (simp add: render_recordAbsent)
  have 2: "holds (p_ExpressionAttributeNames pn) (p_ExpressionAttributeValues pn) stored
       (spec_recordAbsent (sortKey ?cfg)) = (stored = None)"
    unfolding pn(2) using k by (rule holds_recordAbsent)
  have 3: "p_ConditionExpression pe = render (spec_absentOrTokenEquals (sortKey ?cfg))"
    using pe(1) by (simp add: render_recordAbsent spec_absentOrTokenEquals_def)
  have 4: "p_ExpressionAttributeValues pe '':recordVersionNumber'' = Some (getProp item ''recordVersionNumber'')"
    using pe(3) by simp
  have 5: "holds (p_ExpressionAttributeNames pe) (p_ExpressionAttributeValues pe) stored
       (spec_absentOrTokenEquals (sortKey ?cfg)) =
       (stored = None \<or>
        (\<exists>it. stored = Some it \<and> it ''recordVersionNumber'' = Some (getProp item ''recordVersionNumber'')))"
    unfolding pe(2) pe(3) spec_absentOrTokenEquals_def holds.simps(5)
      holds_recordAbsent [OF k] holds_tokenEquals ..
  from 1 2 3 4 5 show ?thesis by blast
qed


theorem C2_preconditions_witness:
  "checkForExistingLock_reply (client cfg_sorted) bag_S 5000 ''t'' (GetItem None) = SendPut put_new_S bag_S \<and>
   resume (client cfg_sorted)
     (checkForExistingLock_reply (client cfg_sorted) bag_S 5000 ''t'' (GetItem (Some item_A)))
     (TimerExpired 10000 15000 ''u'') = SendPut put_existing_S bag_S \<and>
   p_ConditionExpression put_new_S = render (spec_recordAbsent (Some ''shard'')) \<and>
   \<not> holds (p_ExpressionAttributeNames put_new_S) (p_ExpressionAttributeValues put_new_S) (Some item_A)
       (spec_recordAbsent (Some ''shard'')) \<and>
   p_ConditionExpression put_existing_S = render (spec_absentOrTokenEquals (Some ''shard'')) \<and>
   holds (p_ExpressionAttributeNames put_existing_S) (p_ExpressionAttributeValues put_existing_S) (Some item_A)
       (spec_absentOrTokenEquals (Some ''shard''))"
proof -
  have c: "fo_config (client cfg_sorted) = cfg_sorted" "sortKey cfg_sorted = Some ''shard''"
    "partitionKey cfg_sorted = ''id''"
    by (simp_all add: client_def cfg_sorted_def cfg_plain_def)
  have u: "leaseDuration cfg_sorted = 10" "leaseUnit cfg_sorted = ''seconds''"
    "lockTable cfg_sorted = ''locks''"
    by (simp_all add: cfg_sorted_def cfg_plain_def)
  have n: "checkForExistingLock_reply (client cfg_sorted) bag_S 5000 ''t'' (GetItem None) = SendPut put_new_S bag_S"
    by (simp add: checkForExistingLock_reply_def acquireNewLock_def tryAcquireLock_def
          getMsForLease_def leaseOrDefault_def toNumber_def
          buildAttributeNotExistsExpression_def buildExpressionAttributeNames_def truthy_str_def key_of_def
          put_new_S_def c u)
  have d: "timeout cfg_sorted item_A 5000 = Num 10000"
  proof -
    have "parseInt (getProp item_A ''leaseDuration'') = Num 10000"
      by (simp add: item_A_def parse_simps)
    then show ?thesis
      by (simp add: timeout_def leaseDurationMs_def cfg_sorted_def cfg_plain_def)
  qed
  have r: "getProp item_A ''recordVersionNumber'' = JString ''A''"
    by (simp add: item_A_def getProp_def)
  have e: "resume (client cfg_sorted)
     (checkForExistingLock_reply (client cfg_sorted) bag_S 5000 ''t'' (GetItem (Some item_A)))
     (TimerExpired 10000 15000 ''u'') = SendPut put_existing_S bag_S"
    by (simp add: checkForExistingLock_reply_def acquireExistingLock_def tryAcquireLock_def
          getMsForLease_def leaseOrDefault_def toNumber_def
          buildAttributeNotExistsExpression_def buildExpressionAttributeNames_def truthy_str_def key_of_def
          put_existing_S_def c d r u timerDelay_def)
  have k: "\<forall>it. Some item_A = Some it \<longrightarrow> it (partitionKey (fo_config (client cfg_sorted))) \<noteq> None"
    by (simp add: c item_A_def)
  have t: "getProp item_A ''recordVersionNumber'' = JString ''A''"
    "item_A ''recordVersionNumber'' = Some (JString ''A'')"
    by (simp_all add: item_A_def getProp_def)
  from C2_preconditions [OF n e k] n e t show ?thesis
    by (simp add: c)
qed

section \<open>A falsy sort key value\<close>








section \<open>Records written by this client\<close>

lemma digit_cases:
  assumes "d < (10::nat)"
  shows "d = 0 \<or> d = 1 \<or> d = 2 \<or> d = 3 \<or> d = 4 \<or> d = 5 \<or> d = 6 \<or> d = 7 \<or> d = 8 \<or> d = 9"
  using assms by arith

lemma digitValue_digit: "d < 10 \<Longrightarrow> digitValue (''0123456789'' ! d) = Some d"
  using digit_cases [of d] by (auto simp: digitValue_def)

lemma digit_plain:
  "d < 10 \<Longrightarrow> \<not> isWhiteSpace1 (''0123456789'' ! d) \<and> \<not> isWhiteSpace2 (''0123456789'' ! d) b \<and>
     \<not> isWhiteSpace3 (''0123456789'' ! d) b c \<and> ''0123456789'' ! d \<noteq> CHR ''-'' \<and>
     ''0123456789'' ! d \<noteq> CHR ''+'' \<and> ''0123456789'' ! d \<noteq> CHR ''x'' \<and> ''0123456789'' ! d \<noteq> CHR ''X''"
  using digit_cases [of d] by (auto simp: isWhiteSpace1_def isWhiteSpace2_def isWhiteSpace3_def)

lemma skipWhiteSpace_plain:
  assumes "\<not> isWhiteSpace1 a" "\<And>b. \<not> isWhiteSpace2 a b" "\<And>b c. \<not> isWhiteSpace3 a b c"
  shows "skipWhiteSpace (a # cs) = a # cs"
proof (cases cs)
  case Nil
  with assms show ?thesis by simp
next
  case (Cons b cs')
  with assms show ?thesis by (cases cs') simp_all
qed

lemma parseDigits_string_of_nat:
  "parseDigits 10 acc (string_of_nat n @ rest) =
     parseDigits 10 (Some ((case acc of None \<Rightarrow> 0 | Some a \<Rightarrow> a) * 10 ^ length (string_of_nat n) + n)) rest"
proof (induction n arbitrary: acc rest rule: string_of_nat.induct)
  case (1 n)
  show ?case
  proof (cases "n < 10")
    case True
    then show ?thesis
      by (simp add: string_of_nat.simps [of n] digitValue_digit)
  next
    case False
    have m: "n mod 10 < 10" by simp
    from False have s: "string_of_nat n = string_of_nat (n div 10) @ [''0123456789'' ! (n mod 10)]"
      by (simp add: string_of_nat.simps [of n])
    have "parseDigits 10 acc (string_of_nat n @ rest) =
        parseDigits 10 acc (string_of_nat (n div 10) @ (''0123456789'' ! (n mod 10)) # rest)"
      by (simp add: s)
    also have "\<dots> = parseDigits 10
        (Some ((case acc of None \<Rightarrow> 0 | Some a \<Rightarrow> a) * 10 ^ length (string_of_nat (n div 10)) + n div 10))
        ((''0123456789'' ! (n mod 10)) # rest)"
      using False by (rule "1.IH")
    also have "\<dots> = parseDigits 10
        (Some (((case acc of None \<Rightarrow> 0 | Some a \<Rightarrow> a) * 10 ^ length (string_of_nat (n div 10)) + n div 10) * 10
               + n mod 10)) rest"
      by (simp add: digitValue_digit [OF m])
    also have "((case acc of None \<Rightarrow> 0 | Some a \<Rightarrow> a) * 10 ^ length (string_of_nat (n div 10)) + n div 10) * 10
               + n mod 10 =
        (case acc of None \<Rightarrow> 0 | Some a \<Rightarrow> a) * 10 ^ length (string_of_nat n) + n"
      by (simp add: s algebra_simps)
    finally show ?thesis .
  qed
qed

lemma string_of_nat_head:
  "\<exists>d cs. d < 10 \<and> string_of_nat n = (''0123456789'' ! d) # cs \<and>
     (\<forall>c cs'. cs = c # cs' \<longrightarrow> (\<exists>d'. d' < 10 \<and> c = ''0123456789'' ! d'))"
proof (induction n rule: string_of_nat.induct)
  case (1 n)
  show ?case
  proof (cases "n < 10")
    case True
    then have "string_of_nat n = (''0123456789'' ! n) # []"
      by (simp add: string_of_nat.simps [of n])
    with True show ?thesis by blast
  next
    case False
    have m: "n mod 10 < 10" by simp
    from False have s: "string_of_nat n = string_of_nat (n div 10) @ [''0123456789'' ! (n mod 10)]"
      by (simp add: string_of_nat.simps [of n])
    from "1.IH" [OF False] obtain d cs where d: "d < 10"
      and h: "string_of_nat (n div 10) = (''0123456789'' ! d) # cs"
      and t: "\<forall>c cs'. cs = c # cs' \<longrightarrow> (\<exists>d'. d' < 10 \<and> c = ''0123456789'' ! d')"
      by blast
    have "string_of_nat n = (''0123456789'' ! d) # (cs @ [''0123456789'' ! (n mod 10)])"
      by (simp add: s h)
    moreover have "\<forall>c cs'. cs @ [''0123456789'' ! (n mod 10)] = c # cs' \<longrightarrow>
        (\<exists>d'. d' < 10 \<and> c = ''0123456789'' ! d')"
    proof (cases cs)
      case Nil
      have "n mod 10 < 10 \<and> ''0123456789'' ! (n mod 10) = ''0123456789'' ! (n mod 10)"
        by simp
      then have "\<exists>d'. d' < 10 \<and> ''0123456789'' ! (n mod 10) = ''0123456789'' ! d'"
        by (rule exI)
      with Nil show ?thesis by simp
    next
      case (Cons c' cs'')
      with t show ?thesis by simp
    qed
    ultimately show ?thesis using d by blast
  qed
qed

lemma parseInt_string_of_nat:
  "n \<le> 9007199254740992 \<Longrightarrow> parseInt_string (string_of_nat n) = Num (int n)"
proof -
  assume b: "n \<le> 9007199254740992"
  from string_of_nat_head [of n] obtain d cs where d: "d < 10"
    and h: "string_of_nat n = (''0123456789'' ! d) # cs"
    and t: "\<forall>c cs'. cs = c # cs' \<longrightarrow> (\<exists>d'. d' < 10 \<and> c = ''0123456789'' ! d')"
    by blast
  have w: "skipWhiteSpace (string_of_nat n) = string_of_nat n"
    unfolding h using digit_plain [OF d] by (intro skipWhiteSpace_plain) simp_all
  have g: "stripSign (string_of_nat n) = (1, string_of_nat n)"
    using digit_plain [OF d] by (simp add: h)
  have x: "stripPrefix (string_of_nat n) = (10, string_of_nat n)"
  proof (cases cs)
    case Nil
    then show ?thesis by (simp add: h)
  next
    case (Cons c cs')
    with t obtain d' where "d' < 10" "c = ''0123456789'' ! d'" by blast
    with digit_plain [of d'] Cons show ?thesis by (simp add: h)
  qed
  have "parseDigits 10 None (string_of_nat n) = Some n"
    using parseDigits_string_of_nat [of None n "[]"] by simp
  moreover from b have "toNumber (int n) = Num (int n)"
    by (intro toNumber_exact) simp
  ultimately show ?thesis using w g x by (simp add: parseInt_string_def)
qed

lemma parseInt_string_minus:
  assumes "0 < n" "n \<le> 9007199254740992"
  shows "parseInt_string (CHR ''-'' # string_of_nat n) = Num (- int n)"
proof -
  have w: "skipWhiteSpace (CHR ''-'' # string_of_nat n) = CHR ''-'' # string_of_nat n"
    by (intro skipWhiteSpace_plain) (simp_all add: isWhiteSpace1_def isWhiteSpace2_def isWhiteSpace3_def)
  from string_of_nat_head [of n] obtain d cs where d: "d < 10"
    and h: "string_of_nat n = (''0123456789'' ! d) # cs"
    and t: "\<forall>c cs'. cs = c # cs' \<longrightarrow> (\<exists>d'. d' < 10 \<and> c = ''0123456789'' ! d')"
    by blast
  have x: "stripPrefix (string_of_nat n) = (10, string_of_nat n)"
  proof (cases cs)
    case Nil
    then show ?thesis by (simp add: h)
  next
    case (Cons c cs')
    with t obtain d' where "d' < 10" "c = ''0123456789'' ! d'" by blast
    with digit_plain [of d'] Cons show ?thesis by (simp add: h)
  qed
  have "parseDigits 10 None (string_of_nat n) = Some n"
    using parseDigits_string_of_nat [of None n "[]"] by simp
  moreover from assms have "toNumber (- int n) = Num (- int n)"
    by (intro toNumber_exact) simp
  ultimately show ?thesis using w x by (simp add: parseInt_string_def)
qed

text \<open>A number up to \<open>2^53\<close> in magnitude is printed in full and read back as it was.\<close>

lemma parseInt_toString:
  assumes "\<bar>i\<bar> \<le> 9007199254740992"
  shows "parseInt (JString (toString (Num i))) = Num i"
proof (cases "i < 0")
  case True
  with assms have b: "0 < nat (- i)" "nat (- i) \<le> 9007199254740992" by simp_all
  then have "natToString (nat (- i)) = string_of_nat (nat (- i))"
    by (simp add: natToString_def)
  with parseInt_string_minus [OF b] True show ?thesis
    by simp
next
  case False
  with assms have b: "nat i \<le> 9007199254740992" by simp
  then have "natToString (nat i) = string_of_nat (nat i)"
    by (simp add: natToString_def)
  with parseInt_string_of_nat [OF b] False show ?thesis
    by simp
qed

text \<open>
  The lease duration this client writes is never zero, and up to \<open>2^53\<close> milliseconds it
  is read back as written, so for the records of this client the fallback to 10000 does
  not come into play.
\<close>

lemma leaseDurationMs_written:
  assumes "item ''leaseDuration'' = Some (JString (toString (Num ms)))" "ms \<noteq> 0"
    "\<bar>ms\<bar> \<le> 9007199254740992"
  shows "leaseDurationMs item = Num ms"
  using assms parseInt_toString [of ms]
  by (simp add: leaseDurationMs_def getProp_def del: parseInt.simps toString.simps)

end
